theory Spec2Isabelle
  imports Complex_Main "HOL-Library.AList"
begin

section \<open>Shared environment of \<^verbatim>\<open>inputf.py\<close>\<close>

text \<open>
  The loaders of \<^verbatim>\<open>inputf.py\<close> read files through external readers
  (\<^verbatim>\<open>scipy.io.loadmat\<close>, \<^verbatim>\<open>numpy.loadtxt\<close>, \<^verbatim>\<open>pyrocko.io.load\<close>) and report through
  a logger. The file system is a function from a path to what reading that
  path yields; the logger is a list of entries, appended to in program order.
  A Python float is an IEEE double, modelled by the \<^typ>\<open>real\<close> it denotes; the
  result of a float operation is the exact result rounded to the nearest
  double, ties to even (\<open>fl\<close> below). Overflow, subnormal numbers and NaN are
  outside the model: the values are finite and the results in the normal
  range.
\<close>

datatype error =
    ReadError
  | IOError
  | TypeError
  | KeyError string
  | AttributeError string
  | IndexError
  | StationCountDiffers
  | NoDataForChannel

datatype log_entry = Warn string | Info string

datatype 'a read_result = Loaded 'a | Raises_IOError | Raises_Other

definition ebind :: "error + 'a \<Rightarrow> ('a \<Rightarrow> error + 'b) \<Rightarrow> error + 'b" where
  "ebind r f = (case r of Inl e \<Rightarrow> Inl e | Inr x \<Rightarrow> f x)"

text \<open>The number of binary digits of a natural number.\<close>

fun bit_length :: "nat \<Rightarrow> nat" where
  "bit_length n = (if n = 0 then 0 else Suc (bit_length (n div 2)))"

declare bit_length.simps [simp del]

text \<open>The binary exponent \<open>e\<close> of a non-zero real: \<open>2^e \<le> |x| < 2^(e+1)\<close>.\<close>

definition bin_exp :: "real \<Rightarrow> int" where
  "bin_exp x =
     (if 1 \<le> \<bar>x\<bar> then int (bit_length (nat \<lfloor>\<bar>x\<bar>\<rfloor>)) - 1
      else - int (bit_length (nat (\<lceil>1 / \<bar>x\<bar>\<rceil> - 1))))"

definition pow2 :: "int \<Rightarrow> real" where
  "pow2 e = (if 0 \<le> e then 2 ^ nat e else 1 / 2 ^ nat (- e))"

text \<open>Rounding to the nearest integer, ties to the even one.\<close>

definition round_even :: "real \<Rightarrow> int" where
  "round_even y =
     (let f = \<lfloor>y\<rfloor>; r = y - of_int f in
      if r < 1 / 2 then f else if 1 / 2 < r then f + 1 else if even f then f else f + 1)"

text \<open>
  Rounding to the nearest double: a double with binary exponent \<open>e\<close> is an
  integer multiple of \<open>2^(e - 52)\<close> (53 significant bits).
\<close>

definition fl :: "real \<Rightarrow> real" where
  "fl x = (if x = 0 then 0
           else let s = pow2 (bin_exp x - 52) in of_int (round_even (x / s)) * s)"

text \<open>
  Lines 12 and 13. The literal \<^verbatim>\<open>1000.\<close> is a double; the literal
  \<^verbatim>\<open>0.000000001\<close> denotes the double nearest to \<open>10^-9\<close>.
\<close>

definition km :: real where
  "km = 1000"

definition m :: real where
  "m = fl (1 / 1000000000)"

section \<open>Interferogram loader\<close>

text \<open>
  What \<^verbatim>\<open>scipy.io.loadmat(..., squeeze_me=True, struct_as_record=False)\<close>
  returns: a dictionary from field names to values; a value is a number, a
  vector, a matrix, or a struct object with attributes.
\<close>

datatype matval =
    Scalar real
  | Vec "real list"
  | Mat "real list list"
  | Struct "(string \<times> matval) list"

type_synonym matdict = "(string \<times> matval) list"

text \<open>\<^verbatim>\<open>d[key]\<close> on a dictionary: a missing key raises KeyError.\<close>

definition getitem :: "matdict \<Rightarrow> string \<Rightarrow> error + matval" where
  "getitem d k = (case map_of d k of None \<Rightarrow> Inl (KeyError k) | Some v \<Rightarrow> Inr v)"

text \<open>\<^verbatim>\<open>a[:, j]\<close>: column \<open>j\<close> of a two-dimensional array; anything else raises IndexError.\<close>

fun column :: "matval \<Rightarrow> nat \<Rightarrow> error + real list" where
  "column (Mat rows) j =
     (if list_all (\<lambda>r. j < length r) rows then Inr (map (\<lambda>r. r ! j) rows) else Inl IndexError)"
| "column (Scalar x) j = Inl IndexError"
| "column (Vec xs) j = Inl IndexError"
| "column (Struct fs) j = Inl IndexError"

text \<open>\<^verbatim>\<open>obj.attr\<close> on a loaded struct object.\<close>

fun getattr :: "matval \<Rightarrow> string \<Rightarrow> error + matval" where
  "getattr (Struct fs) a =
     (case map_of fs a of None \<Rightarrow> Inl (AttributeError a) | Some v \<Rightarrow> Inr v)"
| "getattr (Scalar x) a = Inl (AttributeError a)"
| "getattr (Vec xs) a = Inl (AttributeError a)"
| "getattr (Mat rows) a = Inl (AttributeError a)"

text \<open>
  Modelled from the spec: \<^verbatim>\<open>heart.Covariance\<close> and \<^verbatim>\<open>heart.DiffIFG\<close> are classes of
  the repository's \<^verbatim>\<open>heart\<close> module, which is not among the sources. The spec's
  InterferogramObservation is a record of the keyword arguments the loader
  passes, and the covariance structure wraps the matrix it is given.
\<close>

record Covariance =
  data :: matval

record DiffIFG =
  name :: string
  displacement :: matval
  utme :: "real list"
  utmn :: "real list"
  lons :: "real list"
  lats :: "real list"
  covariance :: Covariance
  incidence :: matval
  heading :: matval
  odw :: matval

type_synonym projection = "real list \<Rightarrow> real list \<Rightarrow> int \<Rightarrow> real list \<times> real list"

text \<open>
  Lines 45 to 61: the record built from a loaded pair. \<^verbatim>\<open>utility.utm_to_lonlat\<close>
  is a parameter. The field reads happen in the order Python evaluates them.
\<close>

definition make_DiffIFG :: "projection \<Rightarrow> string \<Rightarrow> matdict \<Rightarrow> matdict \<Rightarrow> error + DiffIFG" where
  "make_DiffIFG utm_to_lonlat k dat covs =
     ebind (getitem dat ''cfoc'') (\<lambda>c0. ebind (column c0 0) (\<lambda>utmx.
     ebind (getitem dat ''cfoc'') (\<lambda>c1. ebind (column c1 1) (\<lambda>utmy.
     (case utm_to_lonlat utmx utmy 36 of (lons', lats') \<Rightarrow>
     ebind (getitem dat ''lvQT'') (\<lambda>Lv.
     ebind (getitem covs ''Cov'') (\<lambda>cov.
     ebind (getitem dat ''sqval'') (\<lambda>sq.
     ebind (getattr Lv ''inci'') (\<lambda>inci.
     ebind (getattr Lv ''head'') (\<lambda>hd'.
     ebind (getitem dat ''ODW_sub'') (\<lambda>od.
       Inr \<lparr>DiffIFG.name = k, displacement = sq, utme = utmx, utmn = utmy,
            lons = lons', lats = lats', covariance = \<lparr>data = cov\<rparr>,
            incidence = inci, heading = hd', odw = od\<rparr>)))))))))))"

text \<open>Lines 16 to 21: only IOError is caught; it is logged and None is returned.\<close>

definition load_matfile ::
  "(string \<Rightarrow> matdict read_result) \<Rightarrow> string \<Rightarrow> log_entry list
     \<Rightarrow> (error + matdict option) \<times> log_entry list" where
  "load_matfile fs datapath lg =
     (case fs datapath of
        Loaded v \<Rightarrow> (Inr (Some v), lg)
      | Raises_IOError \<Rightarrow> (Inr None, lg @ [Warn (''File '' @ datapath @ '' does not exist.'')])
      | Raises_Other \<Rightarrow> (Inl ReadError, lg))"

text \<open>
  The state the loop of \<^verbatim>\<open>load_SAR_data\<close> works on: the caller's list \<^verbatim>\<open>names\<close>
  (mutated in place), the result list \<^verbatim>\<open>diffgs\<close>, and the logger output.
\<close>

record sar_state =
  names :: "string list"
  diffgs :: "DiffIFG list"
  msgs :: "log_entry list"

definition quad_path :: "string \<Rightarrow> string \<Rightarrow> string" where
  "quad_path datadir k = datadir @ ''quad_'' @ k @ ''.mat''"

definition cov_path :: "string \<Rightarrow> string \<Rightarrow> string" where
  "cov_path datadir k = datadir @ ''CovMatrix_'' @ k @ ''.mat''"

text \<open>Lines 34 to 65: the loop body for the identifier \<open>k\<close>.\<close>

definition sar_body ::
  "(string \<Rightarrow> matdict read_result) \<Rightarrow> projection \<Rightarrow> string \<Rightarrow> string
     \<Rightarrow> sar_state \<Rightarrow> error + sar_state" where
  "sar_body fs utm_to_lonlat datadir k st =
     (case load_matfile fs (quad_path datadir k) (msgs st) of
        (Inl e, l1) \<Rightarrow> Inl e
      | (Inr dat, l1) \<Rightarrow>
          (case load_matfile fs (cov_path datadir k) l1 of
             (Inl e, l2) \<Rightarrow> Inl e
           | (Inr covs, l2) \<Rightarrow>
               (case (dat, covs) of
                  (Some d, Some c) \<Rightarrow>
                    (case make_DiffIFG utm_to_lonlat k d c of
                       Inl e \<Rightarrow> Inl e
                     | Inr g \<Rightarrow>
                         (case names st of
                            [] \<Rightarrow> Inl IndexError
                          | n0 # rest \<Rightarrow>
                              Inr \<lparr>names = rest, diffgs = diffgs st @ [g], msgs = l2\<rparr>))
                | _ \<Rightarrow>
                    Inr \<lparr>names = names st, diffgs = diffgs st,
                         msgs = l2 @ [Info (''File '' @ datadir @ '' was no SAR data?!'')]\<rparr>)))"

text \<open>
  \<^verbatim>\<open>for k in names\<close>: the list iterator keeps an index \<open>i\<close>; each round compares
  it with the current length of the list, reads \<^verbatim>\<open>names[i]\<close> and advances.
\<close>

function sar_loop ::
  "(string \<Rightarrow> matdict read_result) \<Rightarrow> projection \<Rightarrow> string \<Rightarrow> nat
     \<Rightarrow> sar_state \<Rightarrow> error + sar_state" where
  "sar_loop fs utm_to_lonlat datadir i st =
     (if i < length (names st) then
        (case sar_body fs utm_to_lonlat datadir (names st ! i) st of
           Inl e \<Rightarrow> Inl e
         | Inr st' \<Rightarrow> sar_loop fs utm_to_lonlat datadir (Suc i) st')
      else Inr st)"
  by pat_completeness auto
termination
  by (relation "measure (\<lambda>(fs, u, d, i, st). length (names st) - i)")
     (auto simp: sar_body_def split: prod.splits sum.splits option.splits list.splits)

declare sar_loop.simps [simp del]

definition load_SAR_data ::
  "(string \<Rightarrow> matdict read_result) \<Rightarrow> projection \<Rightarrow> string \<Rightarrow> string list
     \<Rightarrow> error + sar_state" where
  "load_SAR_data fs utm_to_lonlat datadir names0 =
     sar_loop fs utm_to_lonlat datadir 0 \<lparr>names = names0, diffgs = [], msgs = []\<rparr>"

section \<open>Station-velocity table loader\<close>

text \<open>
  A table file is a list of rows: the name token and the numeric tokens after
  it. \<^verbatim>\<open>numpy.loadtxt\<close> (with its default \<^verbatim>\<open>ndmin=0\<close>) squeezes axes of length one:
  one name gives a zero-dimensional array, one row of numbers a one-dimensional
  array of its eight values; an empty file gives an empty one-dimensional
  array. A row with fewer than nine columns makes the reader fail.
\<close>

type_synonym table = "(string \<times> real list) list"

datatype str_array = Str0 string | Str1 "string list"

datatype float_array = Flt1 "real list" | Flt2 "real list list"

definition loadtxt_names :: "(string \<Rightarrow> table read_result) \<Rightarrow> string \<Rightarrow> error + str_array" where
  "loadtxt_names fs filepath =
     (case fs filepath of
        Raises_IOError \<Rightarrow> Inl IOError
      | Raises_Other \<Rightarrow> Inl ReadError
      | Loaded tbl \<Rightarrow>
          (case tbl of [r] \<Rightarrow> Inr (Str0 (fst r)) | _ \<Rightarrow> Inr (Str1 (map fst tbl))))"

definition loadtxt_cols :: "(string \<Rightarrow> table read_result) \<Rightarrow> string \<Rightarrow> error + float_array" where
  "loadtxt_cols fs filepath =
     (case fs filepath of
        Raises_IOError \<Rightarrow> Inl IOError
      | Raises_Other \<Rightarrow> Inl ReadError
      | Loaded tbl \<Rightarrow>
          (if list_all (\<lambda>r. 8 \<le> length (snd r)) tbl then
             (case tbl of
                [] \<Rightarrow> Inr (Flt1 [])
              | [r] \<Rightarrow> Inr (Flt1 (take 8 (snd r)))
              | _ \<Rightarrow> Inr (Flt2 (map (\<lambda>r. take 8 (snd r)) tbl)))
           else Inl ReadError))"

text \<open>\<^verbatim>\<open>names.size\<close>, \<^verbatim>\<open>d.shape[0]\<close>, \<^verbatim>\<open>d[i, j]\<close> and iteration over \<^verbatim>\<open>names\<close>.\<close>

fun size_of :: "str_array \<Rightarrow> nat" where
  "size_of (Str0 s) = 1"
| "size_of (Str1 xs) = length xs"

fun shape0 :: "float_array \<Rightarrow> nat" where
  "shape0 (Flt1 xs) = length xs"
| "shape0 (Flt2 rows) = length rows"

fun item2 :: "float_array \<Rightarrow> nat \<Rightarrow> nat \<Rightarrow> error + real" where
  "item2 (Flt1 xs) i j = Inl IndexError"
| "item2 (Flt2 rows) i j =
     (if i < length rows \<and> j < length (rows ! i) then Inr (rows ! i ! j) else Inl IndexError)"

fun iter :: "str_array \<Rightarrow> error + string list" where
  "iter (Str0 s) = Inl TypeError"
| "iter (Str1 xs) = Inr xs"

text \<open>\<^verbatim>\<open>os.path.join(filedir, filename)\<close> on a POSIX system.\<close>

definition path_join :: "string \<Rightarrow> string \<Rightarrow> string" where
  "path_join filedir filename =
     (if filename \<noteq> [] \<and> hd filename = CHR ''/'' then filename
      else if filedir = [] \<or> last filedir = CHR ''/'' then filedir @ filename
      else filedir @ ''/'' @ filename)"

text \<open>
  Modelled from the spec: \<^verbatim>\<open>heart.GPSComponent\<close>, \<^verbatim>\<open>heart.GPSStation\<close> and
  \<^verbatim>\<open>heart.GPSDataset\<close> with their methods \<^verbatim>\<open>add_component\<close>, \<^verbatim>\<open>add_station\<close>,
  \<^verbatim>\<open>remove_stations\<close>, \<^verbatim>\<open>get_component_names\<close> and \<^verbatim>\<open>get_compound\<close> belong to the
  repository's \<^verbatim>\<open>heart\<close> module, which is not among the sources. Per the spec a
  station owns an ordered-by-insertion mapping from component name to
  component; a dataset owns a mapping from station name to station with
  unique keys; removing stations drops the named ones and ignores names that
  are not present; the compound of a component name is the cross-station
  collection of the (station, component) pairs with that name.
\<close>

record GPSComponent =
  name :: string
  v :: real
  twosigma :: real

record GPSStation =
  name :: string
  lon :: real
  lat :: real
  components :: "(string \<times> GPSComponent) list"

record GPSDataset =
  stations :: "(string \<times> GPSStation) list"

record GPSCompound =
  component :: string
  members :: "(GPSStation \<times> GPSComponent) list"

text \<open>
  Modelled from the spec: \<^verbatim>\<open>GPSStation.add_component\<close> (absent). The component
  is stored under its name; the mapping keeps insertion order and its keys
  stay unique.
\<close>

definition add_component :: "GPSStation \<Rightarrow> GPSComponent \<Rightarrow> GPSStation" where
  "add_component s c =
     s\<lparr>components := AList.update (GPSComponent.name c) c (components s)\<rparr>"

text \<open>
  Modelled from the spec: \<^verbatim>\<open>GPSDataset.add_station\<close> (absent). The station is
  stored under its name; the keys of the mapping stay unique.
\<close>

definition add_station :: "GPSDataset \<Rightarrow> GPSStation \<Rightarrow> GPSDataset" where
  "add_station ds s = ds\<lparr>stations := AList.update (GPSStation.name s) s (stations ds)\<rparr>"

text \<open>
  Modelled from the spec: \<^verbatim>\<open>GPSDataset.remove_stations\<close> (absent). The stations
  named in the blacklist are dropped; a name that is not present is ignored.
\<close>

definition remove_stations :: "GPSDataset \<Rightarrow> string list \<Rightarrow> GPSDataset" where
  "remove_stations ds blacklist =
     ds\<lparr>stations := filter (\<lambda>kv. fst kv \<notin> set blacklist) (stations ds)\<rparr>"

text \<open>
  Modelled from the spec: \<^verbatim>\<open>GPSStation.get_component_names\<close> (absent): the keys
  of the component mapping, in insertion order.
\<close>

definition get_component_names :: "GPSStation \<Rightarrow> string list" where
  "get_component_names s = map fst (components s)"

text \<open>
  Modelled from the spec: \<^verbatim>\<open>GPSDataset.get_compound\<close> (absent): the cross-station
  collection of the (station, component) pairs that share the component name.
\<close>

definition get_compound :: "GPSDataset \<Rightarrow> string \<Rightarrow> GPSCompound" where
  "get_compound ds c =
     \<lparr>component = c,
      members = concat (map (\<lambda>kv. map (\<lambda>kc. (snd kv, snd kc))
                  (filter (\<lambda>kc. fst kc = c) (components (snd kv)))) (stations ds))\<rparr>"

text \<open>Lines 93 to 99: the loop over \<^verbatim>\<open>enumerate('ENU')\<close> for row \<open>i\<close>.\<close>

fun comp_loop :: "float_array \<Rightarrow> nat \<Rightarrow> nat \<Rightarrow> string \<Rightarrow> GPSStation \<Rightarrow> error + GPSStation" where
  "comp_loop d i j [] gps_station = Inr gps_station"
| "comp_loop d i j (cmp # rest) gps_station =
     ebind (item2 d i (j + 2)) (\<lambda>x.
     ebind (item2 d i (j + 5)) (\<lambda>y.
       comp_loop d i (Suc j) rest
         (add_component gps_station \<lparr>GPSComponent.name = [cmp], v = fl (x / km),
                                          twosigma = fl (y / km)\<rparr>)))"

text \<open>Lines 89 to 100: the loop over \<^verbatim>\<open>enumerate(names)\<close>.\<close>

fun station_loop :: "float_array \<Rightarrow> nat \<Rightarrow> string list \<Rightarrow> GPSDataset \<Rightarrow> error + GPSDataset" where
  "station_loop d i [] ds = Inr ds"
| "station_loop d i (nm # rest) ds =
     ebind (item2 d i 0) (\<lambda>lo.
     ebind (item2 d i 1) (\<lambda>la.
     ebind (comp_loop d i 0 ''ENU'' \<lparr>GPSStation.name = nm, lon = lo, lat = la, components = []\<rparr>) (\<lambda>s.
       station_loop d (Suc i) rest (add_station ds s))))"

text \<open>
  Lines 81 to 102. The two calls of \<^verbatim>\<open>numpy.loadtxt\<close> are the parameters
  \<open>loadtxt_str\<close> (column 0 as strings) and \<open>loadtxt_float\<close> (columns 1 to 8 as
  floats).
\<close>

definition load_ascii_gps ::
  "(string \<Rightarrow> error + str_array) \<Rightarrow> (string \<Rightarrow> error + float_array)
     \<Rightarrow> string \<Rightarrow> string \<Rightarrow> error + GPSDataset" where
  "load_ascii_gps loadtxt_str loadtxt_float filedir filename =
     (let filepath = path_join filedir filename in
      ebind (loadtxt_str filepath) (\<lambda>nms.
      ebind (loadtxt_float filepath) (\<lambda>d.
        if size_of nms \<noteq> shape0 d then Inl StationCountDiffers
        else ebind (iter nms) (\<lambda>xs. station_loop d 0 xs \<lparr>stations = []\<rparr>))))"

text \<open>
  Lines 109 to 116. \<^verbatim>\<open>gps_ds.stations.values()[0]\<close> raises IndexError on an
  empty dataset; the order of \<^verbatim>\<open>values()\<close> is taken to be the stored order.
\<close>

definition load_and_blacklist_GPS ::
  "(string \<Rightarrow> error + str_array) \<Rightarrow> (string \<Rightarrow> error + float_array)
     \<Rightarrow> string \<Rightarrow> string \<Rightarrow> string list \<Rightarrow> error + GPSCompound list" where
  "load_and_blacklist_GPS loadtxt_str loadtxt_float datadir filename blacklist =
     ebind (load_ascii_gps loadtxt_str loadtxt_float datadir filename) (\<lambda>gps_ds.
       let ds' = remove_stations gps_ds blacklist in
       (case map snd (stations ds') of
          [] \<Rightarrow> Inl IndexError
        | s0 # _ \<Rightarrow> Inr (map (get_compound ds') (get_component_names s0))))"

section \<open>Waveform trace loader\<close>

text \<open>
  A station carries the two identity fields the loader reads. A trace carries
  its samples and a header standing for everything the loader leaves alone.
  Reading a path yields the traces of the file, an IOError, or another
  exception.
\<close>

record Station =
  network :: string
  station :: string

record Trace =
  header :: string
  ydata :: "real list"

record trc_state =
  data_trcs :: "Trace list"
  opened :: "string list"
  warnings :: "log_entry list"

text \<open>Lines 135 to 142.\<close>

fun map_channels :: "string list \<Rightarrow> string list \<Rightarrow> error + string list" where
  "map_channels [] ref_channels = Inr ref_channels"
| "map_channels (cha # rest) ref_channels =
     (if cha = ''Z'' then map_channels rest (ref_channels @ [''u''])
      else if cha = ''T'' then map_channels rest (ref_channels @ [''r''])
      else Inl NoDataForChannel)"

definition trace_name :: "Station \<Rightarrow> string \<Rightarrow> string" where
  "trace_name st ref_channel =
     ''reference'' @ ''-'' @ network st @ ''-'' @ station st @ ''-'' @ ref_channel"

definition tracepath :: "string \<Rightarrow> Station \<Rightarrow> string \<Rightarrow> string" where
  "tracepath datadir st ref_channel = datadir @ trace_name st ref_channel @ ''.'' @ ''mseed''"

text \<open>
  Lines 150 to 162: one station of one reference channel. The second
  component is the state after the step, also when an exception leaves it.
\<close>

definition trace_step ::
  "(string \<Rightarrow> Trace list read_result) \<Rightarrow> string \<Rightarrow> string \<Rightarrow> Station \<Rightarrow> trc_state
     \<Rightarrow> error option \<times> trc_state" where
  "trace_step fs datadir ref_channel st s =
     (let p = tracepath datadir st ref_channel;
          s1 = s\<lparr>opened := opened s @ [p]\<rparr> in
      case fs p of
        Raises_IOError \<Rightarrow>
          (None, s1\<lparr>warnings := warnings s1
                      @ [Warn (''Unable to open file: '' @ trace_name st ref_channel)]\<rparr>)
      | Raises_Other \<Rightarrow> (Some ReadError, s1)
      | Loaded trs \<Rightarrow>
          (case trs of
             [] \<Rightarrow> (Some IndexError, s1)
           | data_trace # _ \<Rightarrow>
               (None, s1\<lparr>data_trcs := data_trcs s1
                            @ [data_trace\<lparr>ydata := map (\<lambda>y. fl (y * m)) (ydata data_trace)\<rparr>]\<rparr>)))"

fun stations_loop ::
  "(string \<Rightarrow> Trace list read_result) \<Rightarrow> string \<Rightarrow> string \<Rightarrow> Station list \<Rightarrow> trc_state
     \<Rightarrow> error option \<times> trc_state" where
  "stations_loop fs datadir ref_channel [] s = (None, s)"
| "stations_loop fs datadir ref_channel (st # rest) s =
     (case trace_step fs datadir ref_channel st s of
        (Some e, s') \<Rightarrow> (Some e, s')
      | (None, s') \<Rightarrow> stations_loop fs datadir ref_channel rest s')"

fun channels_loop ::
  "(string \<Rightarrow> Trace list read_result) \<Rightarrow> string \<Rightarrow> Station list \<Rightarrow> string list \<Rightarrow> trc_state
     \<Rightarrow> error option \<times> trc_state" where
  "channels_loop fs datadir sts [] s = (None, s)"
| "channels_loop fs datadir sts (ref_channel # rest) s =
     (case stations_loop fs datadir ref_channel sts s of
        (Some e, s') \<Rightarrow> (Some e, s')
      | (None, s') \<Rightarrow> channels_loop fs datadir sts rest s')"

text \<open>
  The result of a call: the returned traces or the exception, together with
  the paths opened and the warnings logged up to that point.
\<close>

definition load_data_traces ::
  "(string \<Rightarrow> Trace list read_result) \<Rightarrow> string \<Rightarrow> Station list \<Rightarrow> string list
     \<Rightarrow> (error + Trace list) \<times> string list \<times> log_entry list" where
  "load_data_traces fs datadir sts channels =
     (case map_channels channels [] of
        Inl e \<Rightarrow> (Inl e, [], [])
      | Inr ref_channels \<Rightarrow>
          (case channels_loop fs datadir sts ref_channels
                  \<lparr>data_trcs = [], opened = [], warnings = []\<rparr> of
             (Some e, s) \<Rightarrow> (Inl e, opened s, warnings s)
           | (None, s) \<Rightarrow> (Inr (data_trcs s), opened s, warnings s)))"

section \<open>Auxiliary notions for the statements\<close>

text \<open>
  An identifier is readable when neither companion file raises anything but
  IOError and a loaded pair carries the fields the loader reads; it is present
  when both files load and carry them.
\<close>

definition pair_readable ::
  "(string \<Rightarrow> matdict read_result) \<Rightarrow> projection \<Rightarrow> string \<Rightarrow> string \<Rightarrow> bool" where
  "pair_readable fs u d k =
     (case fs (quad_path d k) of
        Raises_Other \<Rightarrow> False
      | Raises_IOError \<Rightarrow> fs (cov_path d k) \<noteq> Raises_Other
      | Loaded q \<Rightarrow>
          (case fs (cov_path d k) of
             Raises_Other \<Rightarrow> False
           | Raises_IOError \<Rightarrow> True
           | Loaded c \<Rightarrow> \<not> isl (make_DiffIFG u k q c)))"

definition pair_present ::
  "(string \<Rightarrow> matdict read_result) \<Rightarrow> projection \<Rightarrow> string \<Rightarrow> string \<Rightarrow> bool" where
  "pair_present fs u d k =
     (case fs (quad_path d k) of
        Loaded q \<Rightarrow>
          (case fs (cov_path d k) of
             Loaded c \<Rightarrow> \<not> isl (make_DiffIFG u k q c)
           | Raises_IOError \<Rightarrow> False
           | Raises_Other \<Rightarrow> False)
      | Raises_IOError \<Rightarrow> False
      | Raises_Other \<Rightarrow> False)"

text \<open>
  An identifier is missing when at least one of its companion files raises
  IOError and none raises another exception; \<open>skip_msgs\<close> is what its loop
  round logs: the warning of each missing file and the diagnostic.
\<close>

definition pair_missing :: "(string \<Rightarrow> matdict read_result) \<Rightarrow> string \<Rightarrow> string \<Rightarrow> bool" where
  "pair_missing fs d k =
     ((fs (quad_path d k) = Raises_IOError \<or> fs (cov_path d k) = Raises_IOError)
      \<and> fs (quad_path d k) \<noteq> Raises_Other \<and> fs (cov_path d k) \<noteq> Raises_Other)"

definition skip_msgs :: "(string \<Rightarrow> matdict read_result) \<Rightarrow> string \<Rightarrow> string \<Rightarrow> log_entry list" where
  "skip_msgs fs d k =
     (if fs (quad_path d k) = Raises_IOError
      then [Warn (''File '' @ quad_path d k @ '' does not exist.'')] else [])
     @ (if fs (cov_path d k) = Raises_IOError
        then [Warn (''File '' @ cov_path d k @ '' does not exist.'')] else [])
     @ [Info (''File '' @ d @ '' was no SAR data?!'')]"

text \<open>
  The elements a Python \<^verbatim>\<open>for\<close> loop reads from a list whose first element is
  removed in every round, starting at iterator index \<open>i\<close>.
\<close>

function picked :: "nat \<Rightarrow> 'a list \<Rightarrow> 'a list" where
  "picked i xs = (if i < length xs then xs ! i # picked (Suc i) (tl xs) else [])"
  by pat_completeness auto
termination
  by (relation "measure (\<lambda>(i, xs). length xs - i)") auto

declare picked.simps [simp del]

text \<open>A file system given by a table of paths; a path not listed does not exist.\<close>

definition fs_of :: "(string \<times> 'a read_result) list \<Rightarrow> string \<Rightarrow> 'a read_result" where
  "fs_of files p = (case map_of files p of None \<Rightarrow> Raises_IOError | Some r \<Rightarrow> r)"

definition demo_quad :: matdict where
  "demo_quad =
     [(''cfoc'', Mat [[500000, 3400000], [500100, 3400200]]),
      (''lvQT'', Struct [(''inci'', Vec [1, 2]), (''head'', Vec [3, 4])]),
      (''sqval'', Vec [5, 6]),
      (''ODW_sub'', Vec [7, 8])]"

definition demo_cov :: matdict where
  "demo_cov = [(''Cov'', Mat [[1, 0], [0, 1]])]"

definition demo_utm :: projection where
  "demo_utm xs ys zone = (map (\<lambda>x. x / 100000) xs, map (\<lambda>y. y / 100000) ys)"

definition demo_ifg :: "string \<Rightarrow> DiffIFG" where
  "demo_ifg k =
     \<lparr>DiffIFG.name = k, displacement = Vec [5, 6], utme = [500000, 500100],
      utmn = [3400000, 3400200], lons = [5, 5001 / 1000], lats = [34, 34002 / 1000],
      covariance = \<lparr>data = Mat [[1, 0], [0, 1]]\<rparr>,
      incidence = Vec [1, 2], heading = Vec [3, 4], odw = Vec [7, 8]\<rparr>"

definition demo_sar_fs :: "string \<Rightarrow> matdict read_result" where
  "demo_sar_fs =
     fs_of [(''d/quad_A.mat'', Loaded demo_quad), (''d/CovMatrix_A.mat'', Loaded demo_cov),
            (''d/quad_B.mat'', Loaded demo_quad), (''d/CovMatrix_B.mat'', Loaded demo_cov),
            (''d/quad_C.mat'', Loaded demo_quad), (''d/CovMatrix_C.mat'', Loaded demo_cov)]"

text \<open>The same directory without the covariance file of \<open>B\<close>.\<close>

definition gap_sar_fs :: "string \<Rightarrow> matdict read_result" where
  "gap_sar_fs =
     fs_of [(''d/quad_A.mat'', Loaded demo_quad), (''d/CovMatrix_A.mat'', Loaded demo_cov),
            (''d/quad_B.mat'', Loaded demo_quad)]"

text \<open>A directory in which reading \<^verbatim>\<open>quad_A.mat\<close> raises an exception other than IOError.\<close>

definition broken_sar_fs :: "string \<Rightarrow> matdict read_result" where
  "broken_sar_fs =
     fs_of [(''d/quad_A.mat'', Raises_Other), (''d/CovMatrix_A.mat'', Loaded demo_cov)]"

text \<open>
  The station the spec describes for one table row: name, longitude and
  latitude from the first three columns, and the components E, N, U in this
  order, the velocity from columns 4 to 6 and the two-sigma uncertainty from
  columns 7 to 9, each divided by 1000 (a float division).
\<close>

definition spec_station_of_row :: "string \<times> real list \<Rightarrow> GPSStation" where
  "spec_station_of_row r =
     \<lparr>GPSStation.name = fst r, lon = snd r ! 0, lat = snd r ! 1,
      components =
        [(''E'', \<lparr>GPSComponent.name = ''E'', v = fl (snd r ! 2 / 1000),
            twosigma = fl (snd r ! 5 / 1000)\<rparr>),
         (''N'', \<lparr>GPSComponent.name = ''N'', v = fl (snd r ! 3 / 1000),
            twosigma = fl (snd r ! 6 / 1000)\<rparr>),
         (''U'', \<lparr>GPSComponent.name = ''U'', v = fl (snd r ! 4 / 1000),
            twosigma = fl (snd r ! 7 / 1000)\<rparr>)]\<rparr>"

text \<open>Every station of the dataset has exactly the component names E, N, U.\<close>

definition ENU_only :: "GPSDataset \<Rightarrow> bool" where
  "ENU_only ds = list_all (\<lambda>kv. get_component_names (snd kv) = [''E'', ''N'', ''U'']) (stations ds)"

text \<open>Table files used in the examples: three rows, one row, two rows with one name.\<close>

definition demo_table :: table where
  "demo_table =
     [(''S1'', [35, 31, 2, 4, 6, 1, 1, 2]),
      (''S2'', [36, 32, 8, 10, 12, 3, 1, 4]),
      (''S3'', [37, 33, 14, 16, 18, 5, 1, 6])]"

definition demo_gps_fs :: "string \<Rightarrow> table read_result" where
  "demo_gps_fs = fs_of [(''d/gps.txt'', Loaded demo_table)]"

definition single_gps_fs :: "string \<Rightarrow> table read_result" where
  "single_gps_fs = fs_of [(''d/gps.txt'', Loaded [(''S1'', [35, 31, 2, 4, 6, 1, 1, 2])])]"

definition twin_gps_fs :: "string \<Rightarrow> table read_result" where
  "twin_gps_fs =
     fs_of [(''d/gps.txt'', Loaded [(''S1'', [35, 31, 2, 4, 6, 1, 1, 2]),
                                   (''S1'', [36, 32, 8, 10, 12, 3, 1, 4])])]"

text \<open>A table file of three rows whose last row has a name and no numbers.\<close>

definition short_gps_fs :: "string \<Rightarrow> table read_result" where
  "short_gps_fs =
     fs_of [(''d/gps.txt'', Loaded [(''S1'', [35, 31, 2, 4, 6, 1, 1, 2]),
                                   (''S2'', [36, 32, 8, 10, 12, 3, 1, 4]),
                                   (''S3'', [])])]"

text \<open>
  The fixed channel table of \<^verbatim>\<open>load_data_traces\<close> in the spec's words: vertical
  \<open>Z\<close> maps to \<open>u\<close>, transverse \<open>T\<close> maps to \<open>r\<close>, and no other code is known.
\<close>

definition ref_code :: "string \<Rightarrow> string" where
  "ref_code cha = (if cha = ''Z'' then ''u'' else ''r'')"

definition known_channel :: "string \<Rightarrow> bool" where
  "known_channel cha = (cha = ''Z'' \<or> cha = ''T'')"

text \<open>
  What one (reference channel, station) pair contributes to the result: the
  first trace of its file with every sample multiplied by \<open>m\<close> (a float product), or nothing;
  the warning it contributes; and whether reading its file ends the call.
\<close>

definition step_traces ::
  "(string \<Rightarrow> Trace list read_result) \<Rightarrow> string \<Rightarrow> string \<times> Station \<Rightarrow> Trace list" where
  "step_traces fs datadir a =
     (case fs (tracepath datadir (snd a) (fst a)) of
        Loaded trs \<Rightarrow>
          (case trs of [] \<Rightarrow> [] | t # _ \<Rightarrow> [t\<lparr>ydata := map (\<lambda>y. fl (y * m)) (ydata t)\<rparr>])
      | Raises_IOError \<Rightarrow> []
      | Raises_Other \<Rightarrow> [])"

definition step_warnings ::
  "(string \<Rightarrow> Trace list read_result) \<Rightarrow> string \<Rightarrow> string \<times> Station \<Rightarrow> log_entry list" where
  "step_warnings fs datadir a =
     (case fs (tracepath datadir (snd a) (fst a)) of
        Loaded trs \<Rightarrow> []
      | Raises_IOError \<Rightarrow> [Warn (''Unable to open file: '' @ trace_name (snd a) (fst a))]
      | Raises_Other \<Rightarrow> [])"

definition trace_readable ::
  "(string \<Rightarrow> Trace list read_result) \<Rightarrow> string \<Rightarrow> string \<times> Station \<Rightarrow> bool" where
  "trace_readable fs datadir a =
     (case fs (tracepath datadir (snd a) (fst a)) of
        Loaded trs \<Rightarrow> trs \<noteq> []
      | Raises_IOError \<Rightarrow> True
      | Raises_Other \<Rightarrow> False)"

text \<open>Two stations, and a directory in which the file of \<open>AAA\<close> for channel \<open>r\<close> is missing.\<close>

definition demo_sts :: "Station list" where
  "demo_sts = [\<lparr>network = ''GE'', station = ''AAA''\<rparr>, \<lparr>network = ''GE'', station = ''BBB''\<rparr>]"

definition demo_trace_fs :: "string \<Rightarrow> Trace list read_result" where
  "demo_trace_fs =
     fs_of [(''d/reference-GE-AAA-u.mseed'',
               Loaded [\<lparr>header = ''AAA.u'', ydata = [1000000000, 3000000000]\<rparr>]),
            (''d/reference-GE-BBB-u.mseed'', Loaded [\<lparr>header = ''BBB.u'', ydata = [2000000000]\<rparr>]),
            (''d/reference-GE-BBB-r.mseed'', Loaded [\<lparr>header = ''BBB.r'', ydata = [4000000000]\<rparr>])]"


section \<open>Rounding to the nearest double: properties\<close>

text \<open>
  The binary exponent brackets the number, and \<open>fl\<close> moves a number by at most
  half a unit in the last place.
\<close>

lemma bit_length_bounds:
  "0 < n \<Longrightarrow> 2 ^ (bit_length n - 1) \<le> n \<and> n < 2 ^ bit_length n"
proof (induction n rule: bit_length.induct)
  case (1 n)
  show ?case
  proof (cases "n div 2 = 0")
    case True
    with "1.prems" have "n = 1" by (simp add: div_eq_0_iff) 
    then show ?thesis by (simp add: bit_length.simps)
  next
    case False
    with "1.IH" "1.prems" have ih: "2 ^ (bit_length (n div 2) - 1) \<le> n div 2"
      "n div 2 < 2 ^ bit_length (n div 2)" by simp_all
    from False have pos: "0 < bit_length (n div 2)" by (simp add: bit_length.simps)
    have b: "bit_length n = Suc (bit_length (n div 2))"
      using "1.prems" by (subst bit_length.simps) simp
    from ih(1) have "2 * 2 ^ (bit_length (n div 2) - 1) \<le> n" by simp
    moreover from pos have "2 * 2 ^ (bit_length (n div 2) - 1) = (2::nat) ^ bit_length (n div 2)"
      by (cases "bit_length (n div 2)") simp_all
    moreover from ih(2) have "n < 2 * 2 ^ bit_length (n div 2)" by simp
    ultimately show ?thesis by (simp add: b)
  qed
qed

lemma pow2_int: "pow2 (int k) = 2 ^ k"
  by (simp add: pow2_def)

lemma pow2_neg_int: "pow2 (- int k) = 1 / 2 ^ k"
  by (cases k) (simp_all add: pow2_def nat_add_distrib)

lemma pow2_add1: "pow2 (e + 1) = 2 * pow2 e"
proof (cases "0 \<le> e")
  case True
  then show ?thesis by (simp add: pow2_def nat_add_distrib)
next
  case False
  then obtain k where e: "e = - int (Suc k)"
    by (metis add.inverse_inverse not_le zero_less_imp_eq_int neg_0_less_iff_less Suc_pred' of_nat_0_less_iff)
  then have "e + 1 = - int k" by simp
  then show ?thesis
    unfolding e by (simp only: pow2_neg_int) simp
qed


lemma real_pow2_le: "2 ^ k \<le> (n::nat) \<Longrightarrow> (2::real) ^ k \<le> real n"
  by (metis of_nat_le_iff of_nat_numeral of_nat_power)

lemma real_lt_pow2: "(n::nat) < 2 ^ k \<Longrightarrow> real n + 1 \<le> 2 ^ k"
proof -
  assume "n < 2 ^ k"
  then have "Suc n \<le> 2 ^ k" by (rule Suc_leI)
  then have "real (Suc n) \<le> real (2 ^ k)" by (simp only: of_nat_le_iff)
  then show ?thesis by simp
qed

lemma bin_exp_bounds:
  assumes "x \<noteq> 0"
  shows "pow2 (bin_exp x) \<le> \<bar>x\<bar> \<and> \<bar>x\<bar> < pow2 (bin_exp x + 1)"
proof (cases "1 \<le> \<bar>x\<bar>")
  case True
  define n where "n = nat \<lfloor>\<bar>x\<bar>\<rfloor>"
  define k where "k = bit_length n - 1"
  from True have n: "0 < n" by (simp add: n_def)
  from bit_length_bounds[OF n] have b: "2 ^ k \<le> n" "n < 2 ^ bit_length n"
    by (simp_all add: k_def)
  from n have bl: "0 < bit_length n" by (subst bit_length.simps) simp
  have e: "bin_exp x = int k"
    using True bl by (simp add: bin_exp_def n_def k_def)
  have fl: "real n \<le> \<bar>x\<bar>" "\<bar>x\<bar> < real n + 1"
    unfolding n_def by linarith+
  from real_pow2_le[OF b(1)] fl(1) have lo: "(2::real) ^ k \<le> \<bar>x\<bar>" by linarith
  from bl have "(2::real) ^ bit_length n = 2 * 2 ^ k"
    unfolding k_def by (cases "bit_length n") simp_all
  with real_lt_pow2[OF b(2)] fl(2) have hi: "\<bar>x\<bar> < 2 * 2 ^ k" by linarith
  from lo hi show ?thesis
    unfolding e pow2_add1 pow2_int by simp
next
  case False
  with assms have x: "0 < \<bar>x\<bar>" "\<bar>x\<bar> < 1" by simp_all
  define y where "y = 1 / \<bar>x\<bar>"
  define n where "n = nat (\<lceil>y\<rceil> - 1)"
  define b where "b = bit_length n"
  from x have y: "1 < y" by (simp add: y_def)
  then have c: "2 \<le> \<lceil>y\<rceil>" by linarith
  then have n: "0 < n" by (simp add: n_def)
  from bit_length_bounds[OF n] have bb: "2 ^ (b - 1) \<le> n" "n < 2 ^ b"
    by (simp_all add: b_def)
  from n have bl: "0 < b" unfolding b_def by (subst bit_length.simps) simp
  have e: "bin_exp x = - int b"
    using False by (simp add: bin_exp_def b_def n_def y_def)
  have rn: "real n = of_int \<lceil>y\<rceil> - 1" using c by (simp add: n_def)
  then have ny: "real n < y" "y \<le> real n + 1" by linarith+
  from real_lt_pow2[OF bb(2)] ny(2) have "y \<le> 2 ^ b" by linarith
  with x have "1 \<le> 2 ^ b * \<bar>x\<bar>"
    by (simp add: y_def field_simps)
  then have lo: "1 / 2 ^ b \<le> \<bar>x\<bar>"
    by (simp add: field_simps)
  from real_pow2_le[OF bb(1)] ny(1) have "(2::real) ^ (b - 1) < y" by linarith
  with x have "2 ^ (b - 1) * \<bar>x\<bar> < 1"
    by (simp add: y_def field_simps)
  moreover from bl have "(2::real) ^ b = 2 * 2 ^ (b - 1)"
    by (cases b) simp_all
  ultimately have hi: "\<bar>x\<bar> < 2 * (1 / 2 ^ b)"
    by (simp add: field_simps)
  from lo hi show ?thesis
    unfolding e pow2_add1 pow2_neg_int by simp
qed



text \<open>The constant \<open>m\<close> and the double nearest to one tenth, as fractions.\<close>

lemma m_value: "m = 4835703278458517 / 2 ^ 82"
  by (simp add: m_def fl_def bin_exp_def bit_length.simps pow2_def round_even_def Let_def)

lemma fl_tenth: "fl (1 / 10) = 3602879701896397 / 2 ^ 55"
  by (simp add: fl_def bin_exp_def bit_length.simps pow2_def round_even_def Let_def)

lemma m_not_exact: "m \<noteq> 1 / 1000000000"
  by (simp add: m_value)

text \<open>Float products of the samples used in the examples with \<open>m\<close>.\<close>

lemma fl_times_m_1: "fl (1000000000 * m) = 1"
  by (simp add: m_value fl_def bin_exp_def bit_length.simps pow2_def round_even_def Let_def)

lemma fl_times_m_2: "fl (2000000000 * m) = 2"
  by (simp add: m_value fl_def bin_exp_def bit_length.simps pow2_def round_even_def Let_def)

lemma fl_times_m_3: "fl (3000000000 * m) = 3"
  by (simp add: m_value fl_def bin_exp_def bit_length.simps pow2_def round_even_def Let_def)

lemma fl_times_m_4: "fl (4000000000 * m) = 4"
  by (simp add: m_value fl_def bin_exp_def bit_length.simps pow2_def round_even_def Let_def)




section \<open>Interferogram loader: properties\<close>

lemma load_matfile_Loaded: "fs p = Loaded x \<Longrightarrow> load_matfile fs p lg = (Inr (Some x), lg)"
  by (simp add: load_matfile_def)

lemma load_matfile_IOError:
  "fs p = Raises_IOError \<Longrightarrow>
     load_matfile fs p lg = (Inr None, lg @ [Warn (''File '' @ p @ '' does not exist.'')])"
  by (simp add: load_matfile_def)

lemma load_matfile_Other: "fs p = Raises_Other \<Longrightarrow> load_matfile fs p lg = (Inl ReadError, lg)"
  by (simp add: load_matfile_def)

lemma sar_body_cases:
  assumes "sar_body fs u d k st = Inr st'"
  shows "(\<exists>q c g n0. fs (quad_path d k) = Loaded q \<and> fs (cov_path d k) = Loaded c
            \<and> make_DiffIFG u k q c = Inr g \<and> names st = n0 # names st'
            \<and> diffgs st' = diffgs st @ [g] \<and> msgs st' = msgs st)
       \<or> ((fs (quad_path d k) = Raises_IOError \<or> fs (cov_path d k) = Raises_IOError)
            \<and> names st' = names st \<and> diffgs st' = diffgs st
            \<and> (\<exists>w. msgs st' = msgs st @ w @ [Info (''File '' @ d @ '' was no SAR data?!'')]))"
proof (cases "fs (quad_path d k)")
  case (Loaded q)
  note q = this
  show ?thesis
  proof (cases "fs (cov_path d k)")
    case (Loaded c)
    with q assms show ?thesis
      by (auto simp: sar_body_def load_matfile_Loaded split: sum.splits list.splits)
  next
    case Raises_IOError
    with q assms show ?thesis
      by (auto simp: sar_body_def load_matfile_Loaded load_matfile_IOError)
  next
    case Raises_Other
    with q assms show ?thesis
      by (simp add: sar_body_def load_matfile_Loaded load_matfile_Other)
  qed
next
  case Raises_IOError
  note q = this
  show ?thesis
  proof (cases "fs (cov_path d k)")
    case (Loaded c)
    with q assms show ?thesis
      by (auto simp: sar_body_def load_matfile_Loaded load_matfile_IOError)
  next
    case Raises_IOError
    with q assms show ?thesis
      by (auto simp: sar_body_def load_matfile_IOError)
  next
    case Raises_Other
    with q assms show ?thesis
      by (simp add: sar_body_def load_matfile_IOError load_matfile_Other)
  qed
next
  case Raises_Other
  with assms show ?thesis
    by (simp add: sar_body_def load_matfile_Other)
qed

lemma sar_body_elim:
  assumes "sar_body fs u d k st = Inr st'"
  obtains (loaded) q c g n0 where
      "fs (quad_path d k) = Loaded q" "fs (cov_path d k) = Loaded c"
      "make_DiffIFG u k q c = Inr g" "names st = n0 # names st'"
      "diffgs st' = diffgs st @ [g]" "msgs st' = msgs st"
  | (skipped) w where
      "fs (quad_path d k) = Raises_IOError \<or> fs (cov_path d k) = Raises_IOError"
      "names st' = names st" "diffgs st' = diffgs st"
      "msgs st' = msgs st @ w @ [Info (''File '' @ d @ '' was no SAR data?!'')]"
  using sar_body_cases[OF assms] by blast

lemma make_DiffIFG_fields:
  assumes "make_DiffIFG u k q c = Inr g"
  shows "\<exists>cf lv. getitem q ''cfoc'' = Inr cf \<and> column cf 0 = Inr (utme g)
           \<and> column cf 1 = Inr (utmn g) \<and> u (utme g) (utmn g) 36 = (lons g, lats g)
           \<and> getitem q ''sqval'' = Inr (displacement g)
           \<and> getitem q ''lvQT'' = Inr lv \<and> getattr lv ''inci'' = Inr (incidence g)
           \<and> getattr lv ''head'' = Inr (heading g)
           \<and> getitem q ''ODW_sub'' = Inr (odw g)
           \<and> getitem c ''Cov'' = Inr (data (covariance g))
           \<and> DiffIFG.name g = k"
  using assms
  by (auto simp: make_DiffIFG_def ebind_def split: sum.splits prod.splits)

lemma sar_body_success:
  assumes "fs (quad_path d k) = Loaded q" "fs (cov_path d k) = Loaded c"
    "make_DiffIFG u k q c = Inr g" "names st = n0 # rest"
  shows "sar_body fs u d k st = Inr \<lparr>names = rest, diffgs = diffgs st @ [g], msgs = msgs st\<rparr>"
  using assms by (simp add: sar_body_def load_matfile_Loaded)

lemma sar_body_missing:
  assumes "fs (quad_path d k) = Raises_IOError \<or> fs (cov_path d k) = Raises_IOError"
    "fs (quad_path d k) \<noteq> Raises_Other" "fs (cov_path d k) \<noteq> Raises_Other"
  shows "\<exists>w. sar_body fs u d k st =
           Inr \<lparr>names = names st, diffgs = diffgs st,
                msgs = msgs st @ w @ [Info (''File '' @ d @ '' was no SAR data?!'')]\<rparr>"
proof (cases "fs (quad_path d k)")
  case (Loaded q)
  with assms have "fs (cov_path d k) = Raises_IOError" by simp
  with Loaded show ?thesis
    by (simp add: sar_body_def load_matfile_Loaded load_matfile_IOError)
next
  case Raises_IOError
  note q = this
  show ?thesis
  proof (cases "fs (cov_path d k)")
    case (Loaded c)
    with q show ?thesis
      by (simp add: sar_body_def load_matfile_Loaded load_matfile_IOError)
  next
    case Raises_IOError
    with q show ?thesis
      by (simp add: sar_body_def load_matfile_IOError)
  next
    case Raises_Other
    with assms show ?thesis by simp
  qed
next
  case Raises_Other
  with assms show ?thesis by simp
qed

lemma sar_body_readable:
  assumes "pair_readable fs u d k" "names st \<noteq> []"
  shows "\<exists>st'. sar_body fs u d k st = Inr st'"
proof (cases "fs (quad_path d k) = Raises_IOError \<or> fs (cov_path d k) = Raises_IOError")
  case True
  moreover from assms(1) have "fs (quad_path d k) \<noteq> Raises_Other" "fs (cov_path d k) \<noteq> Raises_Other"
    by (auto simp: pair_readable_def split: read_result.splits)
  ultimately show ?thesis using sar_body_missing[of fs d k u st] by blast
next
  case False
  with assms(1) obtain q c where qc: "fs (quad_path d k) = Loaded q" "fs (cov_path d k) = Loaded c"
    "\<not> isl (make_DiffIFG u k q c)"
    by (auto simp: pair_readable_def split: read_result.splits)
  then obtain g where "make_DiffIFG u k q c = Inr g"
    by (cases "make_DiffIFG u k q c") auto
  with qc have "fs (quad_path d k) = Loaded q" "fs (cov_path d k) = Loaded c"
    "make_DiffIFG u k q c = Inr g" by simp_all
  moreover from assms(2) obtain n0 rest where "names st = n0 # rest" by (cases "names st") auto
  ultimately show ?thesis using sar_body_success by blast
qed

lemma sar_loop_unfold:
  "i < length (names st) \<Longrightarrow> sar_body fs u d (names st ! i) st = Inr s1 \<Longrightarrow>
     sar_loop fs u d i st = sar_loop fs u d (Suc i) s1"
  by (subst sar_loop.simps) simp

lemma sar_loop_stop: "\<not> i < length (names st) \<Longrightarrow> sar_loop fs u d i st = Inr st"
  by (subst sar_loop.simps) simp

lemma sar_loop_Inr_step:
  assumes "sar_loop fs u d i st = Inr st'" "i < length (names st)"
  obtains s1 where "sar_body fs u d (names st ! i) st = Inr s1"
    "sar_loop fs u d (Suc i) s1 = Inr st'"
proof (cases "sar_body fs u d (names st ! i) st")
  case (Inl e)
  with assms show ?thesis by (subst (asm) sar_loop.simps) simp
next
  case (Inr s1)
  with assms have "sar_loop fs u d (Suc i) s1 = Inr st'"
    by (simp add: sar_loop_unfold)
  with Inr that show ?thesis by blast
qed

lemma sar_loop_names:
  "sar_loop fs u d i st = Inr st' \<Longrightarrow>
     length (diffgs st) \<le> length (diffgs st') \<and>
     names st' = drop (length (diffgs st') - length (diffgs st)) (names st)"
proof (induction fs u d i st rule: sar_loop.induct)
  case (1 fs u d i st)
  show ?case
  proof (cases "i < length (names st)")
    case False
    with "1.prems" show ?thesis by (simp add: sar_loop_stop)
  next
    case True
    from sar_loop_Inr_step[OF "1.prems" True] obtain s1 where
      b: "sar_body fs u d (names st ! i) st = Inr s1" and
      l: "sar_loop fs u d (Suc i) s1 = Inr st'" by blast
    from "1.IH"[OF True b l] have
      ih: "length (diffgs s1) \<le> length (diffgs st')"
          "names st' = drop (length (diffgs st') - length (diffgs s1)) (names s1)"
      by simp_all
    from b show ?thesis
    proof (cases rule: sar_body_elim)
      case (loaded q c g n0)
      with ih have "length (diffgs st') - length (diffgs st)
                      = Suc (length (diffgs st') - length (diffgs s1))"
        by simp
      with ih loaded show ?thesis by simp
    next
      case (skipped w)
      with ih show ?thesis by simp
    qed
  qed
qed

lemma sar_loop_records:
  "sar_loop fs u d i st = Inr st' \<Longrightarrow> g \<in> set (diffgs st') \<Longrightarrow>
     g \<in> set (diffgs st) \<or>
     (\<exists>k q c. k \<in> set (names st) \<and> fs (quad_path d k) = Loaded q
        \<and> fs (cov_path d k) = Loaded c \<and> make_DiffIFG u k q c = Inr g)"
proof (induction fs u d i st rule: sar_loop.induct)
  case (1 fs u d i st)
  show ?case
  proof (cases "i < length (names st)")
    case False
    with "1.prems" show ?thesis by (simp add: sar_loop_stop)
  next
    case True
    from sar_loop_Inr_step[OF "1.prems"(1) True] obtain s1 where
      b: "sar_body fs u d (names st ! i) st = Inr s1" and
      l: "sar_loop fs u d (Suc i) s1 = Inr st'" by blast
    from "1.IH"[OF True b l "1.prems"(2)] have
      ih: "g \<in> set (diffgs s1) \<or>
           (\<exists>k q c. k \<in> set (names s1) \<and> fs (quad_path d k) = Loaded q
              \<and> fs (cov_path d k) = Loaded c \<and> make_DiffIFG u k q c = Inr g)" .
    from True have mem: "names st ! i \<in> set (names st)" by simp
    from b show ?thesis
    proof (cases rule: sar_body_elim)
      case (loaded q c g' n0)
      note h = this
      from h(4) have sub: "set (names s1) \<subseteq> set (names st)" by (metis set_subset_Cons)
      from ih show ?thesis
      proof
        assume "g \<in> set (diffgs s1)"
        with h(5) have "g \<in> set (diffgs st) \<or> g = g'" by auto
        with h(1-3) mem show ?thesis by blast
      next
        assume "\<exists>k q c. k \<in> set (names s1) \<and> fs (quad_path d k) = Loaded q
              \<and> fs (cov_path d k) = Loaded c \<and> make_DiffIFG u k q c = Inr g"
        with sub show ?thesis by blast
      qed
    next
      case (skipped w)
      with ih show ?thesis by simp
    qed
  qed
qed

lemma sar_loop_total:
  "list_all (pair_readable fs u d) (names st) \<Longrightarrow> \<exists>st'. sar_loop fs u d i st = Inr st'"
proof (induction fs u d i st rule: sar_loop.induct)
  case (1 fs u d i st)
  show ?case
  proof (cases "i < length (names st)")
    case False
    then show ?thesis by (simp add: sar_loop_stop)
  next
    case True
    then have "names st ! i \<in> set (names st)" "names st \<noteq> []" by auto
    with "1.prems" have "pair_readable fs u d (names st ! i)"
      by (simp add: list_all_iff)
    with \<open>names st \<noteq> []\<close> obtain s1 where b: "sar_body fs u d (names st ! i) st = Inr s1"
      using sar_body_readable by blast
    from b have "set (names s1) \<subseteq> set (names st)"
      by (cases rule: sar_body_elim) auto
    with "1.prems" have "list_all (pair_readable fs u d) (names s1)"
      by (auto simp: list_all_iff)
    from "1.IH"[OF True b this] sar_loop_unfold[OF True b] show ?thesis by simp
  qed
qed

lemma demo_make: "make_DiffIFG demo_utm k demo_quad demo_cov = Inr (demo_ifg k)"
  by (simp add: make_DiffIFG_def ebind_def getitem_def demo_quad_def demo_cov_def demo_utm_def
        demo_ifg_def)

lemma picked_closed:
  "picked i xs = map (\<lambda>j. xs ! (i + 2 * j)) [0..<(length xs - i + 1) div 2]"
proof (induction i xs rule: picked.induct)
  case (1 i xs)
  show ?case
  proof (cases "i < length xs")
    case False
    then show ?thesis by (subst picked.simps) simp
  next
    case True
    let ?n = "(length (tl xs) - Suc i + 1) div 2"
    from True have cnt: "(length xs - i + 1) div 2 = Suc ?n" by (simp; arith?)
    have "picked (Suc i) (tl xs) = map (\<lambda>j. tl xs ! (Suc i + 2 * j)) [0..<?n]"
      using "1.IH"[OF True] .
    also have "\<dots> = map (\<lambda>j. xs ! (i + 2 * Suc j)) [0..<?n]"
    proof (rule map_cong[OF refl])
      fix j assume "j \<in> set [0..<?n]"
      then have "Suc i + 2 * j < length (tl xs)" by (simp; arith?)
      then show "tl xs ! (Suc i + 2 * j) = xs ! (i + 2 * Suc j)"
        by (simp add: nth_tl)
    qed
    finally have tl: "picked (Suc i) (tl xs) = map (\<lambda>j. xs ! (i + 2 * Suc j)) [0..<?n]" .
    have "picked i xs = xs ! i # picked (Suc i) (tl xs)"
      using True by (subst picked.simps) simp
    also have "\<dots> = map (\<lambda>j. xs ! (i + 2 * j)) [0..<Suc ?n]"
    proof -
      have "[0..<Suc ?n] = 0 # map Suc [0..<?n]"
        by (simp add: upt_conv_Cons map_Suc_upt del: upt_Suc)
      then show ?thesis
        unfolding tl by (simp add: comp_def del: upt_Suc)
    qed
    finally show ?thesis using cnt by simp
  qed
qed

lemma sar_loop_all_present:
  "list_all (pair_present fs u d) (names st) \<Longrightarrow>
     \<exists>st'. sar_loop fs u d i st = Inr st'
       \<and> map DiffIFG.name (diffgs st') = map DiffIFG.name (diffgs st) @ picked i (names st)
       \<and> msgs st' = msgs st"
proof (induction fs u d i st rule: sar_loop.induct)
  case (1 fs u d i st)
  show ?case
  proof (cases "i < length (names st)")
    case False
    then show ?thesis by (subst picked.simps) (simp add: sar_loop_stop)
  next
    case True
    then have "names st ! i \<in> set (names st)" by simp
    with "1.prems" have "pair_present fs u d (names st ! i)"
      by (simp add: list_all_iff)
    then obtain q c where qc: "fs (quad_path d (names st ! i)) = Loaded q"
      "fs (cov_path d (names st ! i)) = Loaded c" "\<not> isl (make_DiffIFG u (names st ! i) q c)"
      by (auto simp: pair_present_def split: read_result.splits)
    then obtain g where g: "make_DiffIFG u (names st ! i) q c = Inr g"
      by (cases "make_DiffIFG u (names st ! i) q c") auto
    from True obtain n0 rest where nm: "names st = n0 # rest" by (cases "names st") auto
    let ?s1 = "\<lparr>names = rest, diffgs = diffgs st @ [g], msgs = msgs st\<rparr>"
    from sar_body_success[OF qc(1,2) g nm]
    have b: "sar_body fs u d (names st ! i) st = Inr ?s1" .
    from "1.prems" nm have "list_all (pair_present fs u d) (names ?s1)" by simp
    from "1.IH"[OF True b this] obtain st' where
      l: "sar_loop fs u d (Suc i) ?s1 = Inr st'" and
      r: "map DiffIFG.name (diffgs st') = map DiffIFG.name (diffgs ?s1) @ picked (Suc i) (names ?s1)"
         "msgs st' = msgs ?s1" by blast
    from make_DiffIFG_fields[OF g] have "DiffIFG.name g = names st ! i" by blast
    moreover have "picked i (names st) = names st ! i # picked (Suc i) rest"
      using True nm by (subst picked.simps) simp
    ultimately have "map DiffIFG.name (diffgs st') = map DiffIFG.name (diffgs st) @ picked i (names st)"
      using r(1) by simp
    with l r(2) sar_loop_unfold[OF True b] show ?thesis by simp
  qed
qed

text \<open>
  Claim C10. When every identifier of the list has both companion files
  present and well-formed, \<^verbatim>\<open>load_SAR_data\<close> returns observations for the
  identifiers at the even positions 0, 2, 4, ... of the original list only:
  half of them rounded up, not all of them. Removing the first element of
  the list after a successful load moves the iterator past the next
  identifier. (The identifiers need not even be distinct.)
\<close>

theorem load_SAR_data_every_other:
  assumes "list_all (pair_present fs u d) ns"
  shows "\<exists>st. load_SAR_data fs u d ns = Inr st
           \<and> map DiffIFG.name (diffgs st) = map (\<lambda>j. ns ! (2 * j)) [0..<(length ns + 1) div 2]
           \<and> length (diffgs st) = (length ns + 1) div 2"
proof -
  from sar_loop_all_present[of fs u d "\<lparr>names = ns, diffgs = [], msgs = []\<rparr>" 0] assms
  obtain st where st: "load_SAR_data fs u d ns = Inr st"
    "map DiffIFG.name (diffgs st) = picked 0 ns"
    by (auto simp: load_SAR_data_def)
  from st(2) have m: "map DiffIFG.name (diffgs st) = map (\<lambda>j. ns ! (2 * j)) [0..<(length ns + 1) div 2]"
    by (simp add: picked_closed)
  from arg_cong[OF m, of length] have "length (diffgs st) = (length ns + 1) div 2" by simp
  with st(1) m show ?thesis by blast
qed

theorem load_SAR_data_every_other_witness:
  "list_all (pair_present demo_sar_fs demo_utm ''d/'') [''A'', ''B'', ''C'']
   \<and> (\<exists>st. load_SAR_data demo_sar_fs demo_utm ''d/'' [''A'', ''B'', ''C''] = Inr st
          \<and> map DiffIFG.name (diffgs st) = [''A'', ''C'']
          \<and> length (diffgs st) = 2)"
proof -
  have h: "list_all (pair_present demo_sar_fs demo_utm ''d/'') [''A'', ''B'', ''C'']"
    by (simp add: pair_present_def demo_sar_fs_def fs_of_def quad_path_def cov_path_def
          demo_make)
  from load_SAR_data_every_other[OF h] obtain st where
    st: "load_SAR_data demo_sar_fs demo_utm ''d/'' [''A'', ''B'', ''C''] = Inr st"
        "map DiffIFG.name (diffgs st)
           = map (\<lambda>j. [''A'', ''B'', ''C''] ! (2 * j)) [0..<(length [''A'', ''B'', ''C''] + 1) div 2]"
        "length (diffgs st) = (length [''A'', ''B'', ''C''] + 1) div 2"
    by blast
  have two: "(length [''A'', ''B'', ''C''] + 1) div 2 = (2::nat)"
    by simp
  have upt: "[0..<(2::nat)] = [0, 1]"
    by (simp add: upt_rec)
  from st(2) have "map DiffIFG.name (diffgs st) = [''A'', ''C'']"
    unfolding two upt by simp
  moreover from st(3) have "length (diffgs st) = 2"
    unfolding two .
  ultimately have "load_SAR_data demo_sar_fs demo_utm ''d/'' [''A'', ''B'', ''C''] = Inr st
      \<and> map DiffIFG.name (diffgs st) = [''A'', ''C''] \<and> length (diffgs st) = 2"
    using st(1) by (intro conjI)
  then have "\<exists>st. load_SAR_data demo_sar_fs demo_utm ''d/'' [''A'', ''B'', ''C''] = Inr st
      \<and> map DiffIFG.name (diffgs st) = [''A'', ''C''] \<and> length (diffgs st) = 2"
    by (rule exI)
  with h show ?thesis
    by (rule conjI)
qed

text \<open>
  Claim C4. \<^verbatim>\<open>load_SAR_data\<close> mutates the caller's identifier list: every
  successful load, and nothing else, removes the first element of the list,
  whichever identifier was loaded. On return the list has lost as many
  leading elements as observations were built; when no load succeeds it is
  unchanged.
\<close>

theorem load_SAR_data_pops_first:
  assumes "load_SAR_data fs u d ns = Inr st"
  shows "names st = drop (length (diffgs st)) ns
       \<and> (diffgs st = [] \<longrightarrow> names st = ns)
       \<and> (\<forall>k s s'. sar_body fs u d k s = Inr s' \<longrightarrow>
             (\<exists>g. diffgs s' = diffgs s @ [g] \<and> names s \<noteq> [] \<and> names s' = tl (names s))
           \<or> (diffgs s' = diffgs s \<and> names s' = names s))"
proof -
  from assms have "sar_loop fs u d 0 \<lparr>names = ns, diffgs = [], msgs = []\<rparr> = Inr st"
    by (simp add: load_SAR_data_def)
  from sar_loop_names[OF this] have n: "names st = drop (length (diffgs st)) ns"
    by simp
  have "(\<exists>g. diffgs s' = diffgs s @ [g] \<and> names s \<noteq> [] \<and> names s' = tl (names s))
           \<or> (diffgs s' = diffgs s \<and> names s' = names s)"
    if "sar_body fs u d k s = Inr s'" for k s s'
    using that by (cases rule: sar_body_elim) auto
  with n show ?thesis by auto
qed

theorem load_SAR_data_pops_first_witness:
  "load_SAR_data demo_sar_fs demo_utm ''d/'' [''A'', ''B'', ''C'']
     = Inr \<lparr>names = [''C''], diffgs = [demo_ifg ''A'', demo_ifg ''C''], msgs = []\<rparr>
   \<and> [''C''] = drop (length [demo_ifg ''A'', demo_ifg ''C'']) [''A'', ''B'', ''C'']"
proof -
  have h: "load_SAR_data demo_sar_fs demo_utm ''d/'' [''A'', ''B'', ''C'']
     = Inr \<lparr>names = [''C''], diffgs = [demo_ifg ''A'', demo_ifg ''C''], msgs = []\<rparr>"
    by (simp add: load_SAR_data_def sar_loop.simps sar_body_def load_matfile_def
          demo_sar_fs_def fs_of_def quad_path_def cov_path_def demo_make)
  from load_SAR_data_pops_first[OF h] h show ?thesis
    by simp
qed

lemma sar_body_skip:
  assumes "pair_missing fs d k"
  shows "sar_body fs u d k st =
           Inr \<lparr>names = names st, diffgs = diffgs st, msgs = msgs st @ skip_msgs fs d k\<rparr>"
proof (cases "fs (quad_path d k)")
  case (Loaded q)
  with assms have "fs (cov_path d k) = Raises_IOError" by (simp add: pair_missing_def)
  with Loaded show ?thesis
    by (simp add: sar_body_def load_matfile_Loaded load_matfile_IOError skip_msgs_def)
next
  case Raises_IOError
  note q = this
  show ?thesis
  proof (cases "fs (cov_path d k)")
    case (Loaded c)
    with q show ?thesis
      by (simp add: sar_body_def load_matfile_Loaded load_matfile_IOError skip_msgs_def)
  next
    case Raises_IOError
    with q show ?thesis
      by (simp add: sar_body_def load_matfile_IOError skip_msgs_def)
  next
    case Raises_Other
    with assms show ?thesis by (simp add: pair_missing_def)
  qed
next
  case Raises_Other
  with assms show ?thesis by (simp add: pair_missing_def)
qed

lemma sar_body_other:
  assumes "fs (quad_path d k) = Raises_Other \<or> fs (cov_path d k) = Raises_Other"
  shows "sar_body fs u d k st = Inl ReadError"
proof (cases "fs (quad_path d k)")
  case (Loaded q)
  with assms show ?thesis
    by (simp add: sar_body_def load_matfile_Loaded load_matfile_Other)
next
  case Raises_IOError
  with assms show ?thesis
    by (simp add: sar_body_def load_matfile_IOError load_matfile_Other)
next
  case Raises_Other
  then show ?thesis
    by (simp add: sar_body_def load_matfile_Other)
qed

lemma sar_loop_Inl:
  "i < length (names st) \<Longrightarrow> sar_body fs u d (names st ! i) st = Inl e \<Longrightarrow>
     sar_loop fs u d i st = Inl e"
  by (subst sar_loop.simps) simp

text \<open>
  A run of missing identifiers starting at the iterator index is gone through
  one by one: each logs its messages, the list stays as it is.
\<close>

lemma sar_loop_skip_run:
  "list_all (pair_missing fs d) pre \<Longrightarrow> names st = front @ pre @ rest \<Longrightarrow>
     sar_loop fs u d (length front) st
       = sar_loop fs u d (length front + length pre)
           \<lparr>names = names st, diffgs = diffgs st,
            msgs = msgs st @ concat (map (skip_msgs fs d) pre)\<rparr>"
proof (induction pre arbitrary: front st)
  case Nil
  then show ?case by (cases st) simp
next
  case (Cons k pre)
  let ?s1 = "\<lparr>names = names st, diffgs = diffgs st, msgs = msgs st @ skip_msgs fs d k\<rparr>"
  from Cons.prems have k: "pair_missing fs d k" and p: "list_all (pair_missing fs d) pre"
    by simp_all
  from Cons.prems(2) have i: "length front < length (names st)"
    and nth: "names st ! length front = k" by simp_all
  from sar_body_skip[OF k] nth have b: "sar_body fs u d (names st ! length front) st = Inr ?s1"
    by simp
  from Cons.prems(2) have n1: "names ?s1 = (front @ [k]) @ pre @ rest" by simp
  from Cons.IH[OF p n1] sar_loop_unfold[OF i b] show ?case by simp
qed

lemma load_SAR_data_skip_run:
  assumes "list_all (pair_missing fs d) pre"
  shows "load_SAR_data fs u d (pre @ rest)
           = sar_loop fs u d (length pre)
               \<lparr>names = pre @ rest, diffgs = [], msgs = concat (map (skip_msgs fs d) pre)\<rparr>"
  using sar_loop_skip_run[OF assms, of "\<lparr>names = pre @ rest, diffgs = [], msgs = []\<rparr>" "[]" rest u]
  by (simp add: load_SAR_data_def)

text \<open>
  Claim C2, as amended. In \<^verbatim>\<open>load_SAR_data\<close> a missing companion file (an
  IOError from the reader) is not fatal. When no read raises anything but
  IOError and every loaded pair carries the fields the loader reads, the call
  returns normally and no returned record belongs to an identifier with a
  missing file. A loop round whose identifier has a missing file builds no
  record, logs the diagnostic and leaves the list alone, and the loop goes
  on: a list of missing identifiers is gone through to its end, every one
  logging its diagnostic, and an identifier that follows missing ones and has
  both files is loaded. For the identifiers \<open>[A, B]\<close> with the files of \<open>A\<close>
  present and the covariance file of \<open>B\<close> missing the result is exactly one
  observation, for \<open>A\<close> (this holds whatever the files of \<open>B\<close> are). A read
  that raises any other exception, at an
  identifier that follows missing ones only, aborts the call.
\<close>

theorem load_SAR_data_missing_file_nonfatal:
  assumes "list_all (pair_readable fs u d) ns"
  shows "(\<exists>st. load_SAR_data fs u d ns = Inr st
            \<and> (\<forall>g\<in>set (diffgs st).
                  fs (quad_path d (DiffIFG.name g)) \<noteq> Raises_IOError
                  \<and> fs (cov_path d (DiffIFG.name g)) \<noteq> Raises_IOError))
       \<and> (\<forall>k s. (fs (quad_path d k) = Raises_IOError \<or> fs (cov_path d k) = Raises_IOError)
              \<longrightarrow> pair_readable fs u d k
              \<longrightarrow> (\<exists>w. sar_body fs u d k s =
                     Inr \<lparr>names = names s, diffgs = diffgs s,
                          msgs = msgs s @ w @ [Info (''File '' @ d @ '' was no SAR data?!'')]\<rparr>))
       \<and> (\<forall>A B qa ca g. fs (quad_path d A) = Loaded qa \<longrightarrow> fs (cov_path d A) = Loaded ca
              \<longrightarrow> make_DiffIFG u A qa ca = Inr g
              \<longrightarrow> load_SAR_data fs u d [A, B] = Inr \<lparr>names = [B], diffgs = [g], msgs = []\<rparr>
                  \<and> DiffIFG.name g = A)
       \<and> (\<forall>pre. list_all (pair_missing fs d) pre
              \<longrightarrow> load_SAR_data fs u d pre
                    = Inr \<lparr>names = pre, diffgs = [],
                           msgs = concat (map (skip_msgs fs d) pre)\<rparr>)
       \<and> (\<forall>pre A qa ca g. list_all (pair_missing fs d) pre
              \<longrightarrow> fs (quad_path d A) = Loaded qa \<longrightarrow> fs (cov_path d A) = Loaded ca
              \<longrightarrow> make_DiffIFG u A qa ca = Inr g
              \<longrightarrow> load_SAR_data fs u d (pre @ [A])
                    = Inr \<lparr>names = tl (pre @ [A]), diffgs = [g],
                           msgs = concat (map (skip_msgs fs d) pre)\<rparr>)
       \<and> (\<forall>pre k rest. list_all (pair_missing fs d) pre
              \<longrightarrow> fs (quad_path d k) = Raises_Other \<or> fs (cov_path d k) = Raises_Other
              \<longrightarrow> load_SAR_data fs u d (pre @ k # rest) = Inl ReadError)"
proof (intro conjI allI impI)
  from sar_loop_total[of fs u d "\<lparr>names = ns, diffgs = [], msgs = []\<rparr>" 0] assms
  obtain st where st: "sar_loop fs u d 0 \<lparr>names = ns, diffgs = [], msgs = []\<rparr> = Inr st"
    by auto
  have "fs (quad_path d (DiffIFG.name g)) \<noteq> Raises_IOError
          \<and> fs (cov_path d (DiffIFG.name g)) \<noteq> Raises_IOError"
    if "g \<in> set (diffgs st)" for g
  proof -
    from sar_loop_records[OF st that] obtain k q c where
      kqc: "fs (quad_path d k) = Loaded q" "fs (cov_path d k) = Loaded c"
        "make_DiffIFG u k q c = Inr g"
      by auto
    from make_DiffIFG_fields[OF kqc(3)] have "DiffIFG.name g = k" by blast
    with kqc show ?thesis by simp
  qed
  with st show "\<exists>st. load_SAR_data fs u d ns = Inr st
            \<and> (\<forall>g\<in>set (diffgs st).
                  fs (quad_path d (DiffIFG.name g)) \<noteq> Raises_IOError
                  \<and> fs (cov_path d (DiffIFG.name g)) \<noteq> Raises_IOError)"
    by (auto simp: load_SAR_data_def)
next
  fix k s
  assume io: "fs (quad_path d k) = Raises_IOError \<or> fs (cov_path d k) = Raises_IOError"
    and rd: "pair_readable fs u d k"
  from rd have "fs (quad_path d k) \<noteq> Raises_Other" "fs (cov_path d k) \<noteq> Raises_Other"
    by (auto simp: pair_readable_def split: read_result.splits)
  from sar_body_missing[OF io this]
  show "\<exists>w. sar_body fs u d k s =
          Inr \<lparr>names = names s, diffgs = diffgs s,
               msgs = msgs s @ w @ [Info (''File '' @ d @ '' was no SAR data?!'')]\<rparr>" .
next
  fix A B qa ca g
  assume h: "fs (quad_path d A) = Loaded qa" "fs (cov_path d A) = Loaded ca"
    "make_DiffIFG u A qa ca = Inr g"
  let ?s0 = "\<lparr>names = [A, B], diffgs = [], msgs = []\<rparr>"
  let ?s1 = "\<lparr>names = [B], diffgs = [g], msgs = []\<rparr>"
  have b: "sar_body fs u d (names ?s0 ! 0) ?s0 = Inr ?s1"
    using sar_body_success[OF h, of ?s0 A "[B]"] by simp
  have "sar_loop fs u d 0 ?s0 = sar_loop fs u d (Suc 0) ?s1"
    by (rule sar_loop_unfold[OF _ b]) simp
  also have "\<dots> = Inr ?s1"
    by (rule sar_loop_stop) simp
  finally show "load_SAR_data fs u d [A, B] = Inr ?s1"
    by (simp add: load_SAR_data_def)
  from make_DiffIFG_fields[OF h(3)] show "DiffIFG.name g = A" by blast
next
  fix pre
  assume p: "list_all (pair_missing fs d) pre"
  let ?s = "\<lparr>names = pre, diffgs = [], msgs = concat (map (skip_msgs fs d) pre)\<rparr>"
  from load_SAR_data_skip_run[OF p, of u "[]"]
  have "load_SAR_data fs u d pre = sar_loop fs u d (length pre) ?s" by simp
  also have "\<dots> = Inr ?s" by (rule sar_loop_stop) simp
  finally show "load_SAR_data fs u d pre = Inr ?s" .
next
  fix pre A qa ca g
  assume p: "list_all (pair_missing fs d) pre"
    and h: "fs (quad_path d A) = Loaded qa" "fs (cov_path d A) = Loaded ca"
      "make_DiffIFG u A qa ca = Inr g"
  let ?s = "\<lparr>names = pre @ [A], diffgs = [], msgs = concat (map (skip_msgs fs d) pre)\<rparr>"
  let ?s1 = "\<lparr>names = tl (pre @ [A]), diffgs = [g],
              msgs = concat (map (skip_msgs fs d) pre)\<rparr>"
  obtain n0 rest where nr: "pre @ [A] = n0 # rest" by (cases "pre @ [A]") auto
  then have tl: "tl (pre @ [A]) = rest" by simp
  have len: "length rest = length pre"
    using arg_cong[OF nr, of length] by simp
  have nthA: "names ?s ! length pre = A" by simp
  have b0: "sar_body fs u d A ?s = Inr ?s1"
    using sar_body_success[OF h, of ?s n0 rest] nr by simp
  have b: "sar_body fs u d (names ?s ! length pre) ?s = Inr ?s1"
    unfolding nthA by (rule b0)
  from load_SAR_data_skip_run[OF p, of u "[A]"]
  have "load_SAR_data fs u d (pre @ [A]) = sar_loop fs u d (length pre) ?s" .
  also have "\<dots> = sar_loop fs u d (Suc (length pre)) ?s1"
    by (rule sar_loop_unfold[OF _ b]) simp
  also have "\<dots> = Inr ?s1"
    by (rule sar_loop_stop) (simp add: tl len)
  finally show "load_SAR_data fs u d (pre @ [A]) = Inr ?s1" .
next
  fix pre k rest
  assume p: "list_all (pair_missing fs d) pre"
    and o: "fs (quad_path d k) = Raises_Other \<or> fs (cov_path d k) = Raises_Other"
  let ?s = "\<lparr>names = pre @ k # rest, diffgs = [],
             msgs = concat (map (skip_msgs fs d) pre)\<rparr>"
  have b: "sar_body fs u d (names ?s ! length pre) ?s = Inl ReadError"
    using sar_body_other[OF o] by simp
  from load_SAR_data_skip_run[OF p, of u "k # rest"]
  have "load_SAR_data fs u d (pre @ k # rest) = sar_loop fs u d (length pre) ?s" .
  also have "\<dots> = Inl ReadError"
    by (rule sar_loop_Inl[OF _ b]) simp
  finally show "load_SAR_data fs u d (pre @ k # rest) = Inl ReadError" .
qed

theorem load_SAR_data_missing_file_nonfatal_witness:
  "list_all (pair_readable gap_sar_fs demo_utm ''d/'') [''B'', ''A'']
   \<and> list_all (pair_missing gap_sar_fs ''d/'') [''B'']
   \<and> gap_sar_fs (quad_path ''d/'' ''A'') = Loaded demo_quad
   \<and> gap_sar_fs (cov_path ''d/'' ''A'') = Loaded demo_cov
   \<and> make_DiffIFG demo_utm ''A'' demo_quad demo_cov = Inr (demo_ifg ''A'')
   \<and> load_SAR_data gap_sar_fs demo_utm ''d/'' [''B'', ''A'']
       = Inr \<lparr>names = [''A''], diffgs = [demo_ifg ''A''],
              msgs = [Warn ''File d/CovMatrix_B.mat does not exist.'',
                      Info ''File d/ was no SAR data?!'']\<rparr>"
proof -
  have h: "list_all (pair_readable gap_sar_fs demo_utm ''d/'') [''B'', ''A'']"
    by (simp add: pair_readable_def gap_sar_fs_def fs_of_def quad_path_def cov_path_def
          demo_make)
  have p: "list_all (pair_missing gap_sar_fs ''d/'') [''B'']"
    by (simp add: pair_missing_def gap_sar_fs_def fs_of_def quad_path_def cov_path_def)
  have q: "gap_sar_fs (quad_path ''d/'' ''A'') = Loaded demo_quad"
    and c: "gap_sar_fs (cov_path ''d/'' ''A'') = Loaded demo_cov"
    by (simp_all add: gap_sar_fs_def fs_of_def quad_path_def cov_path_def)
  note mk = demo_make[of "''A''"]
  from load_SAR_data_missing_file_nonfatal[OF h] p q c mk
  have "load_SAR_data gap_sar_fs demo_utm ''d/'' ([''B''] @ [''A''])
          = Inr \<lparr>names = tl ([''B''] @ [''A'']), diffgs = [demo_ifg ''A''],
                 msgs = concat (map (skip_msgs gap_sar_fs ''d/'') [''B''])\<rparr>"
    by blast
  then have r: "load_SAR_data gap_sar_fs demo_utm ''d/'' [''B'', ''A'']
       = Inr \<lparr>names = [''A''], diffgs = [demo_ifg ''A''],
              msgs = [Warn ''File d/CovMatrix_B.mat does not exist.'',
                      Info ''File d/ was no SAR data?!'']\<rparr>"
    by (simp add: skip_msgs_def gap_sar_fs_def fs_of_def quad_path_def cov_path_def)
  from h p q c mk r show ?thesis by (intro conjI)
qed

text \<open>
  Claim C2 as stated fails: a companion file whose reading raises an
  exception other than IOError (an unparseable file) aborts the whole call.
\<close>

theorem load_SAR_data_unparseable_counterexample:
  "load_SAR_data broken_sar_fs demo_utm ''d/'' [''A''] = Inl ReadError"
  by (simp add: load_SAR_data_def sar_loop.simps sar_body_def load_matfile_def
        broken_sar_fs_def fs_of_def quad_path_def cov_path_def)

text \<open>
  A record of the result was built from the two companion files of its
  identifier: coordinates from \<^verbatim>\<open>cfoc\<close>, longitude and latitude from them by the
  projection with zone 36, displacement from \<^verbatim>\<open>sqval\<close>, incidence and heading
  from \<^verbatim>\<open>lvQT\<close>, the downweight column from \<^verbatim>\<open>ODW_sub\<close>, the covariance from
  \<^verbatim>\<open>Cov\<close>.
\<close>

lemma load_SAR_data_record_fields:
  assumes "load_SAR_data fs u d ns = Inr st" and "g \<in> set (diffgs st)"
  shows "\<exists>q c cf lv. DiffIFG.name g \<in> set ns
           \<and> fs (quad_path d (DiffIFG.name g)) = Loaded q
           \<and> fs (cov_path d (DiffIFG.name g)) = Loaded c
           \<and> getitem q ''cfoc'' = Inr cf \<and> column cf 0 = Inr (utme g)
           \<and> column cf 1 = Inr (utmn g) \<and> u (utme g) (utmn g) 36 = (lons g, lats g)
           \<and> getitem q ''sqval'' = Inr (displacement g)
           \<and> getitem q ''lvQT'' = Inr lv \<and> getattr lv ''inci'' = Inr (incidence g)
           \<and> getattr lv ''head'' = Inr (heading g)
           \<and> getitem q ''ODW_sub'' = Inr (odw g)
           \<and> getitem c ''Cov'' = Inr (data (covariance g))"
proof -
  from assms(1) have "sar_loop fs u d 0 \<lparr>names = ns, diffgs = [], msgs = []\<rparr> = Inr st"
    by (simp add: load_SAR_data_def)
  from sar_loop_records[OF this assms(2)] obtain k q c where
    kqc: "k \<in> set ns" "fs (quad_path d k) = Loaded q" "fs (cov_path d k) = Loaded c"
      "make_DiffIFG u k q c = Inr g"
    by auto
  from make_DiffIFG_fields[OF kqc(4)] kqc(1-3) show ?thesis
    by (elim exE conjE) (intro exI conjI, simp_all)
qed

text \<open>
  Claim C3 fails on the code. With the identifiers \<open>[A, B]\<close> and all four
  companion files present and well-formed, the loop ends after \<open>A\<close>: the list
  has shrunk to \<open>[B]\<close> and the iterator index is 1. No record is built for
  \<open>B\<close> although both of its files load.
\<close>

theorem load_SAR_data_skips_loadable_pair:
  "pair_present demo_sar_fs demo_utm ''d/'' ''B''
   \<and> load_SAR_data demo_sar_fs demo_utm ''d/'' [''A'', ''B'']
       = Inr \<lparr>names = [''B''], diffgs = [demo_ifg ''A''], msgs = []\<rparr>"
  by (simp add: pair_present_def load_SAR_data_def sar_loop.simps sar_body_def
        load_matfile_def demo_sar_fs_def fs_of_def quad_path_def cov_path_def demo_make)

section \<open>Station-velocity table loader: properties\<close>

lemma update_fresh: "k \<notin> fst ` set al \<Longrightarrow> AList.update k x al = al @ [(k, x)]"
  by (induction al) auto

lemma comp_loop_ENU:
  assumes "i < length rows" "length (rows ! i) = 8"
  shows "comp_loop (Flt2 rows) i 0 ''ENU'' \<lparr>GPSStation.name = nm, lon = lo, lat = la, components = []\<rparr>
     = Inr \<lparr>GPSStation.name = nm, lon = lo, lat = la,
      components =
        [(''E'', \<lparr>GPSComponent.name = ''E'', v = fl (rows ! i ! 2 / 1000),
            twosigma = fl (rows ! i ! 5 / 1000)\<rparr>),
         (''N'', \<lparr>GPSComponent.name = ''N'', v = fl (rows ! i ! 3 / 1000),
            twosigma = fl (rows ! i ! 6 / 1000)\<rparr>),
         (''U'', \<lparr>GPSComponent.name = ''U'', v = fl (rows ! i ! 4 / 1000),
            twosigma = fl (rows ! i ! 7 / 1000)\<rparr>)]\<rparr>"
  using assms
  by (simp add: ebind_def add_component_def km_def eval_nat_numeral)

lemma comp_loop_names:
  assumes "comp_loop d i 0 ''ENU'' \<lparr>GPSStation.name = nm, lon = lo, lat = la, components = []\<rparr> = Inr s"
  shows "get_component_names s = [''E'', ''N'', ''U'']"
  using assms
  by (auto simp: ebind_def add_component_def get_component_names_def split: sum.splits)

lemma set_update_subset: "set (AList.update k x al) \<subseteq> insert (k, x) (set al)"
  by (induction al) auto

lemma ENU_only_add_station:
  "ENU_only ds \<Longrightarrow> get_component_names s = [''E'', ''N'', ''U''] \<Longrightarrow> ENU_only (add_station ds s)"
  using set_update_subset[of "GPSStation.name s" s "stations ds"]
  by (auto simp: ENU_only_def add_station_def list_all_iff)

lemma station_loop_ENU_only:
  "station_loop d i nms ds = Inr ds' \<Longrightarrow> ENU_only ds \<Longrightarrow> ENU_only ds'"
proof (induction nms arbitrary: i ds)
  case Nil
  then show ?case by simp
next
  case (Cons nm rest)
  from Cons.prems(1) obtain lo la s where
    s: "comp_loop d i 0 ''ENU'' \<lparr>GPSStation.name = nm, lon = lo, lat = la, components = []\<rparr> = Inr s"
    and l: "station_loop d (Suc i) rest (add_station ds s) = Inr ds'"
    by (auto simp: ebind_def split: sum.splits)
  from comp_loop_names[OF s] Cons.prems(2) have "ENU_only (add_station ds s)"
    by (rule ENU_only_add_station[rotated])
  from Cons.IH[OF l this] show ?case .
qed

lemma load_ascii_gps_ENU_only:
  assumes "load_ascii_gps rdn rdc filedir filename = Inr ds"
  shows "ENU_only ds"
proof -
  from assms obtain d xs where "station_loop d 0 xs \<lparr>stations = []\<rparr> = Inr ds"
    by (auto simp: load_ascii_gps_def Let_def ebind_def split: sum.splits if_splits)
  moreover have "ENU_only \<lparr>stations = []\<rparr>" by (simp add: ENU_only_def)
  ultimately show ?thesis by (rule station_loop_ENU_only)
qed

lemma station_loop_rows:
  assumes "list_all (\<lambda>r. length r = 8) rows"
  shows "i + length nms = length rows \<Longrightarrow> distinct (map fst (stations ds) @ nms) \<Longrightarrow>
     station_loop (Flt2 rows) i nms ds
       = Inr \<lparr>stations = stations ds @ map (\<lambda>r. (fst r, spec_station_of_row r)) (zip nms (drop i rows))\<rparr>"
proof (induction nms arbitrary: i ds)
  case Nil
  then show ?case by simp
next
  case (Cons nm rest)
  from Cons.prems(1) have i: "i < length rows" by simp
  with assms have len: "length (rows ! i) = 8" by (simp add: list_all_length)
  let ?s = "spec_station_of_row (nm, rows ! i)"
  have c: "comp_loop (Flt2 rows) i 0 ''ENU''
             \<lparr>GPSStation.name = nm, lon = rows ! i ! 0, lat = rows ! i ! 1, components = []\<rparr> = Inr ?s"
    using comp_loop_ENU[OF i len] by (simp add: spec_station_of_row_def)
  from Cons.prems(2) have fresh: "nm \<notin> fst ` set (stations ds)" by auto
  have add: "add_station ds ?s = \<lparr>stations = stations ds @ [(nm, ?s)]\<rparr>"
    using update_fresh[OF fresh] by (simp add: add_station_def spec_station_of_row_def)
  have step: "station_loop (Flt2 rows) i (nm # rest) ds
      = station_loop (Flt2 rows) (Suc i) rest \<lparr>stations = stations ds @ [(nm, ?s)]\<rparr>"
    using i len c add by (simp add: ebind_def)
  from Cons.prems have "Suc i + length rest = length rows"
    "distinct (map fst (stations \<lparr>stations = stations ds @ [(nm, ?s)]\<rparr>) @ rest)"
    by auto
  from Cons.IH[OF this] step Cons_nth_drop_Suc[OF i, symmetric] show ?case
    by simp
qed

lemma demo_path: "path_join ''d'' ''gps.txt'' = ''d/gps.txt''"
  by (simp add: path_join_def)

lemma load_ascii_gps_stations:
  assumes "fs (path_join filedir filename) = Loaded tbl"
    "list_all (\<lambda>r. length (snd r) = 8) tbl" "distinct (map fst tbl)" "2 \<le> length tbl"
  shows "load_ascii_gps (loadtxt_names fs) (loadtxt_cols fs) filedir filename
           = Inr \<lparr>stations = map (\<lambda>r. (fst r, spec_station_of_row r)) tbl\<rparr>"
proof -
  let ?p = "path_join filedir filename"
  from assms(4) obtain a b rest where tbl: "tbl = a # b # rest"
    by (cases tbl; cases "tl tbl") auto
  from assms(2) have take: "map (\<lambda>r. take 8 (snd r)) tbl = map snd tbl"
    by (simp add: list_all_iff)
  from assms(2) have ge: "list_all (\<lambda>r. 8 \<le> length (snd r)) tbl"
    by (simp add: list_all_iff)
  have n: "loadtxt_names fs ?p = Inr (Str1 (map fst tbl))"
    using assms(1) by (simp add: loadtxt_names_def tbl)
  have "loadtxt_cols fs ?p = Inr (Flt2 (map (\<lambda>r. take 8 (snd r)) tbl))"
    using assms(1) ge by (simp add: loadtxt_cols_def tbl)
  with take have c: "loadtxt_cols fs ?p = Inr (Flt2 (map snd tbl))" by simp
  from assms(2) have rows: "list_all (\<lambda>r. length r = 8) (map snd tbl)"
    by (simp add: list_all_iff)
  have "station_loop (Flt2 (map snd tbl)) 0 (map fst tbl) \<lparr>stations = []\<rparr>
          = Inr \<lparr>stations = map (\<lambda>r. (fst r, spec_station_of_row r)) tbl\<rparr>"
    using station_loop_rows[OF rows, of 0 "map fst tbl" "\<lparr>stations = []\<rparr>"] assms(3)
    by (simp add: zip_map_fst_snd)
  with n c show ?thesis
    by (simp add: load_ascii_gps_def ebind_def)
qed

lemma demo_gps_load:
  "load_ascii_gps (loadtxt_names demo_gps_fs) (loadtxt_cols demo_gps_fs) ''d'' ''gps.txt''
     = Inr \<lparr>stations = map (\<lambda>r. (fst r, spec_station_of_row r)) demo_table\<rparr>"
  by (rule load_ascii_gps_stations[of demo_gps_fs "''d''" "''gps.txt''" demo_table])
     (simp_all add: demo_path demo_gps_fs_def fs_of_def demo_table_def)

lemma load_ascii_gps_empty:
  assumes "fs (path_join filedir filename) = Loaded []"
  shows "load_ascii_gps (loadtxt_names fs) (loadtxt_cols fs) filedir filename
           = Inr \<lparr>stations = []\<rparr>"
  using assms by (simp add: load_ascii_gps_def loadtxt_names_def loadtxt_cols_def ebind_def)

text \<open>
  For every well-formed table whose number of rows is not one and whose
  station names are pairwise distinct, \<^verbatim>\<open>load_ascii_gps\<close> returns a dataset with
  exactly as many stations as rows; the station of a row has exactly the
  three components E, N, U in this order, and each component's velocity and
  two-sigma uncertainty are the raw values of the row divided by 1000.
\<close>

lemma load_ascii_gps_table:
  assumes "fs (path_join filedir filename) = Loaded tbl"
    "list_all (\<lambda>r. length (snd r) = 8) tbl" "distinct (map fst tbl)" "length tbl \<noteq> 1"
  shows "\<exists>ds. load_ascii_gps (loadtxt_names fs) (loadtxt_cols fs) filedir filename = Inr ds
           \<and> length (stations ds) = length tbl
           \<and> map snd (stations ds) = map spec_station_of_row tbl
           \<and> list_all (\<lambda>kv. get_component_names (snd kv) = [''E'', ''N'', ''U'']
                              \<and> length (components (snd kv)) = 3) (stations ds)"
proof -
  let ?ds = "\<lparr>stations = map (\<lambda>r. (fst r, spec_station_of_row r)) tbl\<rparr>"
  have "load_ascii_gps (loadtxt_names fs) (loadtxt_cols fs) filedir filename = Inr ?ds"
  proof (cases "tbl = []")
    case True
    with assms(1) show ?thesis by (simp add: load_ascii_gps_empty)
  next
    case False
    with assms(4) have "2 \<le> length tbl"
      by (cases tbl; cases "tl tbl") auto
    with assms(1-3) show ?thesis by (rule load_ascii_gps_stations)
  qed
  moreover have "length (stations ?ds) = length tbl" by simp
  moreover have "map snd (stations ?ds) = map spec_station_of_row tbl" by (simp add: comp_def)
  moreover have "list_all (\<lambda>kv. get_component_names (snd kv) = [''E'', ''N'', ''U'']
                              \<and> length (components (snd kv)) = 3) (stations ?ds)"
    by (simp add: list_all_iff get_component_names_def spec_station_of_row_def)
  ultimately show ?thesis by (intro exI[of _ ?ds] conjI)
qed

text \<open>Two rows with the same station name give a dataset with one station.\<close>

lemma load_ascii_gps_twin_names:
  "\<exists>ds. load_ascii_gps (loadtxt_names twin_gps_fs) (loadtxt_cols twin_gps_fs) ''d'' ''gps.txt''
          = Inr ds \<and> length (stations ds) = 1"
  by (simp add: load_ascii_gps_def loadtxt_names_def loadtxt_cols_def demo_path
        twin_gps_fs_def fs_of_def ebind_def add_station_def add_component_def eval_nat_numeral)

text \<open>
  Claim C1 fails on the code. For a well-formed table with a single row the
  reader squeezes the name column to a zero-dimensional array of size 1 and
  the numeric block to a one-dimensional array of length 8, so the check of
  line 85 raises its exception, although the table has one station and one
  row of data; no dataset is returned.
\<close>

theorem load_ascii_gps_single_row_raises:
  "single_gps_fs (path_join ''d'' ''gps.txt'') = Loaded [(''S1'', [35, 31, 2, 4, 6, 1, 1, 2])]
   \<and> loadtxt_names single_gps_fs (path_join ''d'' ''gps.txt'') = Inr (Str0 ''S1'')
   \<and> loadtxt_cols single_gps_fs (path_join ''d'' ''gps.txt'')
       = Inr (Flt1 [35, 31, 2, 4, 6, 1, 1, 2])
   \<and> load_ascii_gps (loadtxt_names single_gps_fs) (loadtxt_cols single_gps_fs) ''d'' ''gps.txt''
       = Inl StationCountDiffers"
  by (simp add: load_ascii_gps_def loadtxt_names_def loadtxt_cols_def demo_path
        single_gps_fs_def fs_of_def ebind_def)

text \<open>
  The check of line 85 by itself: whenever the two arrays the reads return
  differ in size and leading dimension, the row-count exception is raised.
\<close>

lemma load_ascii_gps_guard:
  assumes "loadtxt_str (path_join filedir filename) = Inr nms"
    "loadtxt_float (path_join filedir filename) = Inr d"
    "size_of nms \<noteq> shape0 d"
  shows "load_ascii_gps loadtxt_str loadtxt_float filedir filename = Inl StationCountDiffers"
  using assms by (simp add: load_ascii_gps_def ebind_def)

text \<open>
  Claim C5, as amended. Whenever some row of the table has fewer than nine
  columns, so that the name column has more entries than the numeric block
  has rows, \<^verbatim>\<open>load_ascii_gps\<close> fails and produces no dataset; the failure is the
  reader's error, raised on the short row when the numeric block is read,
  before the row-count check of line 85 is reached.
\<close>

theorem load_ascii_gps_short_row:
  assumes "fs (path_join filedir filename) = Loaded tbl"
    and "\<not> list_all (\<lambda>r. 8 \<le> length (snd r)) tbl"
  shows "load_ascii_gps (loadtxt_names fs) (loadtxt_cols fs) filedir filename = Inl ReadError"
proof -
  let ?p = "path_join filedir filename"
  have "\<exists>nms. loadtxt_names fs ?p = Inr nms"
    using assms(1) by (cases tbl; cases "tl tbl") (simp_all add: loadtxt_names_def)
  then obtain nms where n: "loadtxt_names fs ?p = Inr nms" ..
  from assms have c: "loadtxt_cols fs ?p = Inl ReadError"
    by (simp add: loadtxt_cols_def)
  from n c show ?thesis
    by (simp add: load_ascii_gps_def ebind_def)
qed

theorem load_ascii_gps_short_row_witness:
  "short_gps_fs (path_join ''d'' ''gps.txt'')
     = Loaded [(''S1'', [35, 31, 2, 4, 6, 1, 1, 2]), (''S2'', [36, 32, 8, 10, 12, 3, 1, 4]),
               (''S3'', [])]
   \<and> \<not> list_all (\<lambda>r. 8 \<le> length (snd r))
         [(''S1'', [35, 31, 2, 4, 6, 1, 1, 2 :: real]), (''S2'', [36, 32, 8, 10, 12, 3, 1, 4]),
          (''S3'', [])]
   \<and> load_ascii_gps (loadtxt_names short_gps_fs) (loadtxt_cols short_gps_fs) ''d'' ''gps.txt''
       = Inl ReadError"
proof -
  have h1: "short_gps_fs (path_join ''d'' ''gps.txt'')
     = Loaded [(''S1'', [35, 31, 2, 4, 6, 1, 1, 2]), (''S2'', [36, 32, 8, 10, 12, 3, 1, 4]),
               (''S3'', [])]"
    by (simp add: demo_path short_gps_fs_def fs_of_def)
  have h2: "\<not> list_all (\<lambda>r. 8 \<le> length (snd r))
         [(''S1'', [35, 31, 2, 4, 6, 1, 1, 2 :: real]), (''S2'', [36, 32, 8, 10, 12, 3, 1, 4]),
          (''S3'', [])]"
    by simp
  from load_ascii_gps_short_row[of short_gps_fs "''d''" "''gps.txt''", OF h1 h2] h1 h2
  show ?thesis by (intro conjI)
qed

text \<open>
  Claim C5 as stated fails: a table with three names and two rows of numbers
  does not end in the row-count exception but in the reader's error.
\<close>

theorem load_ascii_gps_short_row_counterexample:
  "load_ascii_gps (loadtxt_names short_gps_fs) (loadtxt_cols short_gps_fs) ''d'' ''gps.txt''
     \<noteq> Inl StationCountDiffers
   \<and> load_ascii_gps (loadtxt_names short_gps_fs) (loadtxt_cols short_gps_fs) ''d'' ''gps.txt''
     = Inl ReadError"
  by (simp add: load_ascii_gps_def loadtxt_names_def loadtxt_cols_def demo_path
        short_gps_fs_def fs_of_def ebind_def)

text \<open>
  Claim C6. \<^verbatim>\<open>load_and_blacklist_GPS\<close> loads the dataset and removes the
  blacklisted stations. If no station remains it fails with the IndexError
  of reading the first station of an empty dataset. Otherwise it returns one
  compound target per component name, E, N and U in this order, built from
  the remaining stations; every remaining station has these component names,
  so the choice of the station does not matter.
\<close>

theorem load_and_blacklist_GPS_targets:
  assumes "load_ascii_gps rdn rdc datadir filename = Inr ds"
  shows "(set (map fst (stations ds)) \<subseteq> set blacklist \<longrightarrow>
            load_and_blacklist_GPS rdn rdc datadir filename blacklist = Inl IndexError)
       \<and> (\<not> set (map fst (stations ds)) \<subseteq> set blacklist \<longrightarrow>
            load_and_blacklist_GPS rdn rdc datadir filename blacklist
              = Inr (map (get_compound (remove_stations ds blacklist)) [''E'', ''N'', ''U'']))
       \<and> map component (map (get_compound (remove_stations ds blacklist)) [''E'', ''N'', ''U''])
            = [''E'', ''N'', ''U'']
       \<and> stations (remove_stations ds blacklist)
            = filter (\<lambda>kv. fst kv \<notin> set blacklist) (stations ds)
       \<and> list_all (\<lambda>kv. get_component_names (snd kv) = [''E'', ''N'', ''U''])
            (stations (remove_stations ds blacklist))"
proof (intro conjI impI)
  let ?ds' = "remove_stations ds blacklist"
  have st: "stations ?ds' = filter (\<lambda>kv. fst kv \<notin> set blacklist) (stations ds)"
    by (simp add: remove_stations_def)
  from load_ascii_gps_ENU_only[OF assms] have enu: "ENU_only ?ds'"
    by (simp add: ENU_only_def st list_all_iff)
  show "stations ?ds' = filter (\<lambda>kv. fst kv \<notin> set blacklist) (stations ds)"
    by (rule st)
  from enu show "list_all (\<lambda>kv. get_component_names (snd kv) = [''E'', ''N'', ''U''])
            (stations ?ds')"
    by (simp add: ENU_only_def)
  show "map component (map (get_compound ?ds') [''E'', ''N'', ''U'']) = [''E'', ''N'', ''U'']"
    by (simp add: get_compound_def)
  {
    assume "set (map fst (stations ds)) \<subseteq> set blacklist"
    then have "stations ?ds' = []"
      unfolding st by (auto simp: filter_empty_conv)
    with assms show "load_and_blacklist_GPS rdn rdc datadir filename blacklist = Inl IndexError"
      by (simp add: load_and_blacklist_GPS_def ebind_def Let_def)
  }
  {
    assume "\<not> set (map fst (stations ds)) \<subseteq> set blacklist"
    then have "stations ?ds' \<noteq> []"
      unfolding st by (auto simp: filter_empty_conv)
    then obtain kv rest where kv: "stations ?ds' = kv # rest"
      by (cases "stations ?ds'") auto
    with enu have "get_component_names (snd kv) = [''E'', ''N'', ''U'']"
      by (simp add: ENU_only_def)
    with assms kv
    show "load_and_blacklist_GPS rdn rdc datadir filename blacklist
              = Inr (map (get_compound ?ds') [''E'', ''N'', ''U''])"
      by (simp add: load_and_blacklist_GPS_def ebind_def Let_def)
  }
qed

theorem load_and_blacklist_GPS_targets_witness:
  "load_ascii_gps (loadtxt_names demo_gps_fs) (loadtxt_cols demo_gps_fs) ''d'' ''gps.txt''
     = Inr \<lparr>stations = map (\<lambda>r. (fst r, spec_station_of_row r)) demo_table\<rparr>
   \<and> load_and_blacklist_GPS (loadtxt_names demo_gps_fs) (loadtxt_cols demo_gps_fs)
        ''d'' ''gps.txt'' [''S1'', ''S2'', ''S3'', ''S9''] = Inl IndexError
   \<and> load_and_blacklist_GPS (loadtxt_names demo_gps_fs) (loadtxt_cols demo_gps_fs)
        ''d'' ''gps.txt'' [''S2'']
       = Inr (map (get_compound (remove_stations
                \<lparr>stations = map (\<lambda>r. (fst r, spec_station_of_row r)) demo_table\<rparr> [''S2'']))
              [''E'', ''N'', ''U''])"
proof -
  note h = demo_gps_load
  have "set (map fst (stations \<lparr>stations = map (\<lambda>r. (fst r, spec_station_of_row r)) demo_table\<rparr>))
          \<subseteq> set [''S1'', ''S2'', ''S3'', ''S9'']"
    by (simp add: demo_table_def)
  with load_and_blacklist_GPS_targets[OF h, of "[''S1'', ''S2'', ''S3'', ''S9'']"]
  have "load_and_blacklist_GPS (loadtxt_names demo_gps_fs) (loadtxt_cols demo_gps_fs)
        ''d'' ''gps.txt'' [''S1'', ''S2'', ''S3'', ''S9''] = Inl IndexError"
    by (elim conjE) (erule mp)
  moreover
  have "\<not> set (map fst (stations \<lparr>stations = map (\<lambda>r. (fst r, spec_station_of_row r)) demo_table\<rparr>))
          \<subseteq> set [''S2'']"
    by (simp add: demo_table_def)
  with load_and_blacklist_GPS_targets[OF h, of "[''S2'']"]
  have "load_and_blacklist_GPS (loadtxt_names demo_gps_fs) (loadtxt_cols demo_gps_fs)
        ''d'' ''gps.txt'' [''S2'']
       = Inr (map (get_compound (remove_stations
                \<lparr>stations = map (\<lambda>r. (fst r, spec_station_of_row r)) demo_table\<rparr> [''S2'']))
              [''E'', ''N'', ''U''])"
    by (elim conjE) (erule mp)
  ultimately show ?thesis using h by (intro conjI)
qed

section \<open>Waveform trace loader: properties\<close>

lemma map_channels_acc:
  "map_channels channels acc =
     (if list_all known_channel channels then Inr (acc @ map ref_code channels)
      else Inl NoDataForChannel)"
  by (induction channels arbitrary: acc) (auto simp: known_channel_def ref_code_def)

lemma trace_step_None:
  assumes "trace_step fs datadir rc st s = (None, s')"
  shows "data_trcs s' = data_trcs s @ step_traces fs datadir (rc, st)
       \<and> opened s' = opened s @ [tracepath datadir st rc]
       \<and> warnings s' = warnings s @ step_warnings fs datadir (rc, st)
       \<and> trace_readable fs datadir (rc, st)"
  using assms
  by (auto simp: trace_step_def Let_def step_traces_def step_warnings_def trace_readable_def
           split: read_result.splits list.splits)

lemma trace_step_readable:
  assumes "trace_readable fs datadir (rc, st)"
  shows "\<exists>s'. trace_step fs datadir rc st s = (None, s')"
  using assms
  by (auto simp: trace_step_def Let_def trace_readable_def split: read_result.splits list.splits)

lemma stations_loop_None:
  "stations_loop fs datadir rc sts s = (None, s') \<Longrightarrow>
     data_trcs s' = data_trcs s @ concat (map (\<lambda>st. step_traces fs datadir (rc, st)) sts)
     \<and> opened s' = opened s @ map (\<lambda>st. tracepath datadir st rc) sts
     \<and> warnings s' = warnings s @ concat (map (\<lambda>st. step_warnings fs datadir (rc, st)) sts)"
proof (induction sts arbitrary: s)
  case Nil
  then show ?case by simp
next
  case (Cons st rest)
  from Cons.prems obtain s1 where
    a: "trace_step fs datadir rc st s = (None, s1)" and
    b: "stations_loop fs datadir rc rest s1 = (None, s')"
    by (auto split: prod.splits option.splits)
  from trace_step_None[OF a] Cons.IH[OF b] show ?case by simp
qed

lemma stations_loop_readable:
  "list_all (\<lambda>st. trace_readable fs datadir (rc, st)) sts \<Longrightarrow>
     \<exists>s'. stations_loop fs datadir rc sts s = (None, s')"
proof (induction sts arbitrary: s)
  case Nil
  then show ?case by simp
next
  case (Cons st rest)
  then obtain s1 where "trace_step fs datadir rc st s = (None, s1)"
    using trace_step_readable[of fs datadir rc st s] by auto
  moreover from Cons obtain s' where "stations_loop fs datadir rc rest s1 = (None, s')"
    by fastforce
  ultimately show ?case by simp
qed

lemma channels_loop_None:
  "channels_loop fs datadir sts rcs s = (None, s') \<Longrightarrow>
     data_trcs s' = data_trcs s @ concat (map (step_traces fs datadir) (List.product rcs sts))
     \<and> opened s' = opened s @ map (\<lambda>a. tracepath datadir (snd a) (fst a)) (List.product rcs sts)
     \<and> warnings s' = warnings s @ concat (map (step_warnings fs datadir) (List.product rcs sts))"
proof (induction rcs arbitrary: s)
  case Nil
  then show ?case by simp
next
  case (Cons rc rest)
  from Cons.prems obtain s1 where
    a: "stations_loop fs datadir rc sts s = (None, s1)" and
    b: "channels_loop fs datadir sts rest s1 = (None, s')"
    by (auto split: prod.splits option.splits)
  from stations_loop_None[OF a] Cons.IH[OF b] show ?case
    by (simp add: comp_def)
qed

lemma channels_loop_readable:
  "list_all (trace_readable fs datadir) (List.product rcs sts) \<Longrightarrow>
     \<exists>s'. channels_loop fs datadir sts rcs s = (None, s')"
proof (induction rcs arbitrary: s)
  case Nil
  then show ?case by simp
next
  case (Cons rc rest)
  from Cons.prems have "list_all (\<lambda>st. trace_readable fs datadir (rc, st)) sts"
    and r: "list_all (trace_readable fs datadir) (List.product rest sts)"
    by (simp_all add: list_all_iff)
  then obtain s1 where "stations_loop fs datadir rc sts s = (None, s1)"
    using stations_loop_readable by blast
  moreover from Cons.IH[OF r] obtain s' where "channels_loop fs datadir sts rest s1 = (None, s')"
    by blast
  ultimately show ?case by simp
qed


lemma trace_step_error:
  "trace_step fs datadir rc st s = (Some e, s') \<Longrightarrow> e = ReadError \<or> e = IndexError"
  by (auto simp: trace_step_def Let_def split: read_result.splits list.splits)

lemma stations_loop_error:
  "stations_loop fs datadir rc sts s = (Some e, s') \<Longrightarrow> e = ReadError \<or> e = IndexError"
proof (induction sts arbitrary: s)
  case Nil
  then show ?case by simp
next
  case (Cons st rest)
  show ?case
  proof (cases "trace_step fs datadir rc st s")
    case (Pair r s1)
    show ?thesis
    proof (cases r)
      case None
      with Pair Cons.prems have "stations_loop fs datadir rc rest s1 = (Some e, s')" by simp
      then show ?thesis by (rule Cons.IH)
    next
      case (Some e')
      with Pair Cons.prems have "e' = e" by simp
      with Pair Some show ?thesis using trace_step_error by blast
    qed
  qed
qed

lemma channels_loop_error:
  "channels_loop fs datadir sts rcs s = (Some e, s') \<Longrightarrow> e = ReadError \<or> e = IndexError"
proof (induction rcs arbitrary: s)
  case Nil
  then show ?case by simp
next
  case (Cons rc rest)
  show ?case
  proof (cases "stations_loop fs datadir rc sts s")
    case (Pair r s1)
    show ?thesis
    proof (cases r)
      case None
      with Pair Cons.prems have "channels_loop fs datadir sts rest s1 = (Some e, s')" by simp
      then show ?thesis by (rule Cons.IH)
    next
      case (Some e')
      with Pair Cons.prems have "e' = e" by simp
      with Pair Some show ?thesis using stations_loop_error by blast
    qed
  qed
qed

lemma load_data_traces_known:
  assumes "list_all known_channel channels"
  shows "load_data_traces fs datadir sts channels
           = (case channels_loop fs datadir sts (map ref_code channels)
                     \<lparr>data_trcs = [], opened = [], warnings = []\<rparr> of
                (Some e, s) \<Rightarrow> (Inl e, opened s, warnings s)
              | (None, s) \<Rightarrow> (Inr (data_trcs s), opened s, warnings s))"
  using assms by (simp add: load_data_traces_def map_channels_acc)

lemma load_data_traces_known_not_rejected:
  assumes "list_all known_channel channels"
  shows "fst (load_data_traces fs datadir sts channels) \<noteq> Inl NoDataForChannel"
proof (cases "channels_loop fs datadir sts (map ref_code channels)
                \<lparr>data_trcs = [], opened = [], warnings = []\<rparr>")
  case (Pair r s)
  show ?thesis
  proof (cases r)
    case None
    with Pair show ?thesis by (simp add: load_data_traces_known[OF assms])
  next
    case (Some e)
    with Pair channels_loop_error have "e = ReadError \<or> e = IndexError" by blast
    with Pair Some show ?thesis by (auto simp: load_data_traces_known[OF assms])
  qed
qed

text \<open>
  Claim C7. In \<^verbatim>\<open>load_data_traces\<close> each requested channel code maps to
  exactly one reference-channel code by the fixed table \<open>Z\<close> to \<open>u\<close>, \<open>T\<close> to
  \<open>r\<close>: a request of known codes is never rejected as unsupported, and the
  call is the loading loop run on the mapped codes, in the order of the
  request. A request holding any other code raises the unsupported-channel
  exception before any path is opened, whatever the directory holds and
  wherever in the request the code stands.
\<close>

theorem load_data_traces_channel_table:
  "(list_all known_channel channels \<longrightarrow>
      map_channels channels [] = Inr (map ref_code channels)
      \<and> load_data_traces fs datadir sts channels
          = (case channels_loop fs datadir sts (map ref_code channels)
                    \<lparr>data_trcs = [], opened = [], warnings = []\<rparr> of
               (Some e, s) \<Rightarrow> (Inl e, opened s, warnings s)
             | (None, s) \<Rightarrow> (Inr (data_trcs s), opened s, warnings s))
      \<and> fst (load_data_traces fs datadir sts channels) \<noteq> Inl NoDataForChannel)
   \<and> (\<not> list_all known_channel channels \<longrightarrow>
      load_data_traces fs datadir sts channels = (Inl NoDataForChannel, [], []))
   \<and> ref_code ''Z'' = ''u'' \<and> ref_code ''T'' = ''r''
   \<and> (\<forall>cha. known_channel cha \<longleftrightarrow> cha = ''Z'' \<or> cha = ''T'')"
proof (intro conjI impI allI)
  assume k: "list_all known_channel channels"
  then show "map_channels channels [] = Inr (map ref_code channels)"
    by (simp add: map_channels_acc)
  from k show "load_data_traces fs datadir sts channels
          = (case channels_loop fs datadir sts (map ref_code channels)
                    \<lparr>data_trcs = [], opened = [], warnings = []\<rparr> of
               (Some e, s) \<Rightarrow> (Inl e, opened s, warnings s)
             | (None, s) \<Rightarrow> (Inr (data_trcs s), opened s, warnings s))"
    by (rule load_data_traces_known)
  from k show "fst (load_data_traces fs datadir sts channels) \<noteq> Inl NoDataForChannel"
    by (rule load_data_traces_known_not_rejected)
next
  assume "\<not> list_all known_channel channels"
  then show "load_data_traces fs datadir sts channels = (Inl NoDataForChannel, [], [])"
    by (simp add: load_data_traces_def map_channels_acc)
next
  show "ref_code ''Z'' = ''u''" "ref_code ''T'' = ''r''"
    by (simp_all add: ref_code_def)
next
  fix cha
  show "known_channel cha \<longleftrightarrow> cha = ''Z'' \<or> cha = ''T''"
    by (simp add: known_channel_def)
qed

theorem load_data_traces_channel_table_witness:
  "list_all known_channel [''Z'', ''T'']
   \<and> map_channels [''Z'', ''T''] [] = Inr [''u'', ''r'']
   \<and> load_data_traces demo_trace_fs ''d/'' demo_sts [''Z'', ''T'']
     = (Inr [\<lparr>header = ''AAA.u'', ydata = [1, 3]\<rparr>, \<lparr>header = ''BBB.u'', ydata = [2]\<rparr>,
             \<lparr>header = ''BBB.r'', ydata = [4]\<rparr>],
        [''d/reference-GE-AAA-u.mseed'', ''d/reference-GE-BBB-u.mseed'',
         ''d/reference-GE-AAA-r.mseed'', ''d/reference-GE-BBB-r.mseed''],
        [Warn ''Unable to open file: reference-GE-AAA-r''])
   \<and> \<not> list_all known_channel [''Z'', ''X'']
   \<and> load_data_traces demo_trace_fs ''d/'' demo_sts [''Z'', ''X''] = (Inl NoDataForChannel, [], [])"
proof -
  have a: "list_all known_channel [''Z'', ''T'']" by (simp add: known_channel_def)
  have b: "\<not> list_all known_channel [''Z'', ''X'']" by (simp add: known_channel_def)
  from load_data_traces_channel_table[of "[''Z'', ''T'']" demo_trace_fs "''d/''" demo_sts] a
  have t: "map_channels [''Z'', ''T''] [] = Inr (map ref_code [''Z'', ''T''])"
    "load_data_traces demo_trace_fs ''d/'' demo_sts [''Z'', ''T'']
          = (case channels_loop demo_trace_fs ''d/'' demo_sts (map ref_code [''Z'', ''T''])
                    \<lparr>data_trcs = [], opened = [], warnings = []\<rparr> of
               (Some e, s) \<Rightarrow> (Inl e, opened s, warnings s)
             | (None, s) \<Rightarrow> (Inr (data_trcs s), opened s, warnings s))"
    by blast+
  from t(1) have c: "map_channels [''Z'', ''T''] [] = Inr [''u'', ''r'']"
    by (simp add: ref_code_def)
  from t(2) have d: "load_data_traces demo_trace_fs ''d/'' demo_sts [''Z'', ''T'']
     = (Inr [\<lparr>header = ''AAA.u'', ydata = [1, 3]\<rparr>, \<lparr>header = ''BBB.u'', ydata = [2]\<rparr>,
             \<lparr>header = ''BBB.r'', ydata = [4]\<rparr>],
        [''d/reference-GE-AAA-u.mseed'', ''d/reference-GE-BBB-u.mseed'',
         ''d/reference-GE-AAA-r.mseed'', ''d/reference-GE-BBB-r.mseed''],
        [Warn ''Unable to open file: reference-GE-AAA-r''])"
    by (simp add: ref_code_def trace_step_def tracepath_def trace_name_def Let_def
          demo_trace_fs_def demo_sts_def fs_of_def
          fl_times_m_1 fl_times_m_2 fl_times_m_3 fl_times_m_4)
  from load_data_traces_channel_table[of "[''Z'', ''X'']" demo_trace_fs "''d/''" demo_sts] b
  have "load_data_traces demo_trace_fs ''d/'' demo_sts [''Z'', ''X''] = (Inl NoDataForChannel, [], [])"
    by blast
  with a b c d show ?thesis by (intro conjI)
qed

text \<open>
  Claim C8. \<^verbatim>\<open>load_data_traces\<close> goes through the pairs channel-major and
  station-minor: all stations for the first mapped channel, then all stations
  for the second. The paths are opened in this order and the returned traces
  stand in this order; a file that cannot be opened contributes a warning and
  no trace, and the traces of the other files keep their order.
\<close>

theorem load_data_traces_order:
  assumes "map_channels channels [] = Inr rcs"
    "list_all (trace_readable fs datadir) (List.product rcs sts)"
  shows "load_data_traces fs datadir sts channels
           = (Inr (concat (map (step_traces fs datadir) (List.product rcs sts))),
              map (\<lambda>a. tracepath datadir (snd a) (fst a)) (List.product rcs sts),
              concat (map (step_warnings fs datadir) (List.product rcs sts)))
       \<and> List.product rcs sts = concat (map (\<lambda>rc. map (Pair rc) sts) rcs)"
proof
  let ?s0 = "\<lparr>data_trcs = [], opened = [], warnings = []\<rparr>"
  from channels_loop_readable[OF assms(2)] obtain s' where
    l: "channels_loop fs datadir sts rcs ?s0 = (None, s')" by blast
  from channels_loop_None[OF l] assms(1) l
  show "load_data_traces fs datadir sts channels
           = (Inr (concat (map (step_traces fs datadir) (List.product rcs sts))),
              map (\<lambda>a. tracepath datadir (snd a) (fst a)) (List.product rcs sts),
              concat (map (step_warnings fs datadir) (List.product rcs sts)))"
    by (simp add: load_data_traces_def)
  show "List.product rcs sts = concat (map (\<lambda>rc. map (Pair rc) sts) rcs)"
    by (rule product_concat_map)
qed

theorem load_data_traces_order_witness:
  "map_channels [''Z'', ''T''] [] = Inr [''u'', ''r'']
   \<and> list_all (trace_readable demo_trace_fs ''d/'') (List.product [''u'', ''r''] demo_sts)
   \<and> load_data_traces demo_trace_fs ''d/'' demo_sts [''Z'', ''T'']
     = (Inr [\<lparr>header = ''AAA.u'', ydata = [1, 3]\<rparr>, \<lparr>header = ''BBB.u'', ydata = [2]\<rparr>,
             \<lparr>header = ''BBB.r'', ydata = [4]\<rparr>],
        [''d/reference-GE-AAA-u.mseed'', ''d/reference-GE-BBB-u.mseed'',
         ''d/reference-GE-AAA-r.mseed'', ''d/reference-GE-BBB-r.mseed''],
        [Warn ''Unable to open file: reference-GE-AAA-r''])"
proof -
  have h1: "map_channels [''Z'', ''T''] [] = Inr [''u'', ''r'']"
    by simp
  have h2: "list_all (trace_readable demo_trace_fs ''d/'') (List.product [''u'', ''r''] demo_sts)"
    by (simp add: trace_readable_def tracepath_def trace_name_def demo_trace_fs_def
          demo_sts_def fs_of_def)
  from load_data_traces_order[OF h1 h2]
  have "load_data_traces demo_trace_fs ''d/'' demo_sts [''Z'', ''T'']
           = (Inr (concat (map (step_traces demo_trace_fs ''d/'')
                     (List.product [''u'', ''r''] demo_sts))),
              map (\<lambda>a. tracepath ''d/'' (snd a) (fst a)) (List.product [''u'', ''r''] demo_sts),
              concat (map (step_warnings demo_trace_fs ''d/'')
                     (List.product [''u'', ''r''] demo_sts)))"
    by (rule conjunct1)
  then have "load_data_traces demo_trace_fs ''d/'' demo_sts [''Z'', ''T'']
     = (Inr [\<lparr>header = ''AAA.u'', ydata = [1, 3]\<rparr>, \<lparr>header = ''BBB.u'', ydata = [2]\<rparr>,
             \<lparr>header = ''BBB.r'', ydata = [4]\<rparr>],
        [''d/reference-GE-AAA-u.mseed'', ''d/reference-GE-BBB-u.mseed'',
         ''d/reference-GE-AAA-r.mseed'', ''d/reference-GE-BBB-r.mseed''],
        [Warn ''Unable to open file: reference-GE-AAA-r''])"
    by (simp add: step_traces_def step_warnings_def tracepath_def trace_name_def
          demo_trace_fs_def demo_sts_def fs_of_def
          fl_times_m_1 fl_times_m_2 fl_times_m_3 fl_times_m_4)
  with h1 h2 show ?thesis by (intro conjI)
qed





end
